theory Spec2Isabelle
  imports Complex_Main "HOL-Library.Product_Lexorder"
begin

section \<open>Errors and warnings\<close>

text \<open>
  Every exception the generation code can raise is a value of \<open>error\<close>; a function
  that can raise returns \<open>error + 'a\<close> with \<open>Inl\<close> for the exception.
  \<open>InvalidParameter\<close> and \<open>InvalidInput\<close> are the error kinds the specification
  names; no statement of \<^verbatim>\<open>graph_connectivity.py\<close> raises them.  \<open>ConvergenceWarning\<close>
  is the warning the specification names; the module never calls the \<^verbatim>\<open>warnings\<close>
  machinery.
\<close>

datatype error =
    NameError | KeyError | ValueError | IndexError | ZeroDivisionError
  | GraphException | InvalidParameter | InvalidInput

datatype warning = ConvergenceWarning

section \<open>The graph object\<close>

text \<open>
  The collaborator \<^verbatim>\<open>graph_tool.Graph\<close> is modelled by what the generators observe of
  it: directedness, the number of vertices (vertices are the indices below it) and the
  edges in edge-index order.
\<close>

type_synonym edge = "nat \<times> nat"

record graph =
  is_directed :: bool
  num_vertices :: nat
  edge_list :: "edge list"

definition Graph :: "bool \<Rightarrow> graph" where
  "Graph d = \<lparr>is_directed = d, num_vertices = 0, edge_list = []\<rparr>"

definition num_edges :: "graph \<Rightarrow> nat" where
  "num_edges g = length (edge_list g)"

text \<open>The smallest vertex count under which every endpoint of \<open>es\<close> is a vertex.\<close>

definition vertices_needed :: "edge list \<Rightarrow> nat" where
  "vertices_needed es = fold (\<lambda>e n. max n (Suc (max (fst e) (snd e)))) es 0"

text \<open>
  \<^verbatim>\<open>Graph.add_edge_list(a)\<close> reads a two-dimensional array row by row: each row is
  one edge, its first two columns the source and the target.  A second dimension below
  two is refused.  Vertices an edge mentions that do not exist yet are created.
\<close>

definition add_edge_list :: "graph \<Rightarrow> nat list list \<Rightarrow> error + graph" where
  "add_edge_list g a =
     (if list_ex (\<lambda>r. length r < 2) a then Inl GraphException
      else let es = map (\<lambda>r. (r ! 0, r ! 1)) a
           in Inr (g\<lparr>num_vertices := max (num_vertices g) (vertices_needed es),
                     edge_list := edge_list g @ es\<rparr>))"

definition remove_self_loops :: "graph \<Rightarrow> graph" where
  "remove_self_loops g = g\<lparr>edge_list := filter (\<lambda>e. fst e \<noteq> snd e) (edge_list g)\<rparr>"

text \<open>
  Two edges are parallel when they join the same ordered pair, or, in an undirected
  graph, the same unordered pair.  \<^verbatim>\<open>remove_parallel_edges\<close> leaves one edge of each
  parallel class.
\<close>

definition parallel :: "bool \<Rightarrow> edge \<Rightarrow> edge \<Rightarrow> bool" where
  "parallel d e e' = (e' = e \<or> (\<not> d \<and> e' = (snd e, fst e)))"

fun drop_parallel :: "bool \<Rightarrow> edge list \<Rightarrow> edge list" where
  "drop_parallel d [] = []"
| "drop_parallel d (e # es) = e # drop_parallel d (filter (\<lambda>e'. \<not> parallel d e e') es)"

definition remove_parallel_edges :: "graph \<Rightarrow> graph" where
  "remove_parallel_edges g = g\<lparr>edge_list := drop_parallel (is_directed g) (edge_list g)\<rparr>"

text \<open>Edge indices are positions in \<open>edge_list\<close>, so they are always contiguous.\<close>

definition reindex_edges :: "graph \<Rightarrow> graph" where
  "reindex_edges g = g"

text \<open>
  \<^verbatim>\<open>adjacency(g).tocoo()\<close>: the non-zero entries of the adjacency matrix as a pair
  (row, col) of coordinate arrays, in row-major order, multiplicities merged into one
  entry.  The entry of the edge from \<open>s\<close> to \<open>t\<close> stands in row \<open>t\<close>, column \<open>s\<close>; an
  undirected edge has both entries.
\<close>

definition adjacency_coo :: "graph \<Rightarrow> nat list \<times> nat list" where
  "adjacency_coo g =
     (let fwd = map (\<lambda>e. (snd e, fst e)) (edge_list g);
          ents = (if is_directed g then fwd else fwd @ edge_list g);
          nz = sort (remdups ents)
      in (map fst nz, map snd nz))"

section \<open>The random source\<close>

text \<open>
  \<^verbatim>\<open>np.random.seed()\<close> reseeds from system entropy; the entropy is the stream
  \<open>rs\<close> of raw draws, read from a cursor that each sampling call advances.
  \<^verbatim>\<open>np.random.randint(0, high, size)\<close> reduces raw draws to the range below
  \<open>high\<close>; it raises when the range is empty or the size is negative.
\<close>

definition randint :: "(nat \<Rightarrow> nat) \<Rightarrow> nat \<Rightarrow> int \<Rightarrow> int \<Rightarrow> error + nat list \<times> nat" where
  "randint rs pos high sz =
     (if high \<le> 0 \<or> sz < 0 then Inl ValueError
      else Inr (map (\<lambda>i. rs (pos + i) mod nat high) [0..<nat sz], pos + nat sz))"

text \<open>The same with shape \<open>(sz, 2)\<close>: rows of two draws.\<close>

definition randint2 :: "(nat \<Rightarrow> nat) \<Rightarrow> nat \<Rightarrow> int \<Rightarrow> int \<Rightarrow> error + nat list list \<times> nat" where
  "randint2 rs pos high sz =
     (if high \<le> 0 \<or> sz < 0 then Inl ValueError
      else Inr (map (\<lambda>i. [rs (pos + 2 * i) mod nat high, rs (pos + 2 * i + 1) mod nat high])
                  [0..<nat sz],
                pos + 2 * nat sz))"

text \<open>Fancy indexing \<^verbatim>\<open>a[idx]\<close> of a one-dimensional array.\<close>

definition take_indices :: "nat list \<Rightarrow> nat list \<Rightarrow> error + nat list" where
  "take_indices a idx =
     (if list_all (\<lambda>i. i < length a) idx then Inr (map ((!) a) idx) else Inl IndexError)"

text \<open>\<^verbatim>\<open>int(x)\<close> of a float, and a float used as an array size: truncation towards zero.\<close>

definition py_int :: "real \<Rightarrow> int" where
  "py_int x = (if 0 \<le> x then \<lfloor>x\<rfloor> else \<lceil>x\<rceil>)"

section \<open>Erdos-Renyi generation\<close>

definition n_MAXTESTS :: nat where
  "n_MAXTESTS = 10000"

text \<open>
  The variables of \<^verbatim>\<open>erdos_renyi\<close> that its two loops update, the cursor of the random
  source, and the warnings issued so far.
\<close>

record er_state =
  graph_er :: graph
  num_test :: nat
  num_current_edges :: nat
  cursor :: nat
  warnings :: "warning list"

text \<open>
  One round of the first loop (lines 71-77).  \<open>pre_recip_edges\<close> is an integer when no
  reciprocity is asked for and a float quotient otherwise; both are read as reals, and
  floating-point rounding is not modelled.  The size handed to \<^verbatim>\<open>randint\<close> is then a
  float, which numpy truncated to an integer when the module was written (a later numpy
  refuses a float size).
\<close>

definition sample_round ::
  "(nat \<Rightarrow> nat) \<Rightarrow> int \<Rightarrow> bool \<Rightarrow> real \<Rightarrow> er_state \<Rightarrow> error + er_state" where
  "sample_round rs nodes multigraph pre_recip_edges st =
     (case randint2 rs (cursor st) nodes
             (py_int (pre_recip_edges - real (num_current_edges st))) of
        Inl e \<Rightarrow> Inl e
      | Inr (ia_edges, pos) \<Rightarrow>
          (case add_edge_list (graph_er st) ia_edges of
             Inl e \<Rightarrow> Inl e
           | Inr g \<Rightarrow>
               let g1 = remove_self_loops g;
                   g2 = (if \<not> multigraph then remove_parallel_edges g1 else g1)
               in Inr (st\<lparr>graph_er := g2, num_current_edges := num_edges g2,
                          num_test := num_test st + 1, cursor := pos\<rparr>)))"

lemma num_test_sample_round:
  "sample_round rs nodes multigraph pre st = Inr st' \<Longrightarrow> num_test st' = num_test st + 1"
  by (auto simp: sample_round_def Let_def split: sum.splits prod.splits)

text \<open>The first loop (line 70).\<close>

function sample_edges ::
  "(nat \<Rightarrow> nat) \<Rightarrow> int \<Rightarrow> bool \<Rightarrow> real \<Rightarrow> er_state \<Rightarrow> error + er_state" where
  "sample_edges rs nodes multigraph pre_recip_edges st =
     (if real (num_current_edges st) \<noteq> pre_recip_edges \<and> num_test st < n_MAXTESTS then
        (case sample_round rs nodes multigraph pre_recip_edges st of
           Inl e \<Rightarrow> Inl e
         | Inr st' \<Rightarrow> sample_edges rs nodes multigraph pre_recip_edges st')
      else Inr st)"
  by pat_completeness auto
termination
  by (relation "measure (\<lambda>(rs, nodes, multigraph, pre, st). n_MAXTESTS - num_test st)")
    (auto dest: num_test_sample_round)

declare sample_edges.simps [simp del]

text \<open>
  One round of the second loop (lines 81-88).  \<open>coo\<close> is computed once, before the
  loop, and the array handed to \<^verbatim>\<open>add_edge_list\<close> has the two rows
  \<^verbatim>\<open>col[ia_indices]\<close> and \<^verbatim>\<open>row[ia_indices]\<close>.
\<close>

definition reciprocal_round ::
  "(nat \<Rightarrow> nat) \<Rightarrow> bool \<Rightarrow> int \<Rightarrow> nat list \<times> nat list \<Rightarrow> er_state \<Rightarrow> error + er_state" where
  "reciprocal_round rs multigraph edges coo st =
     (case randint rs (cursor st) (int (num_current_edges st))
             (edges - int (num_current_edges st)) of
        Inl e \<Rightarrow> Inl e
      | Inr (ia_indices, pos) \<Rightarrow>
          (case take_indices (snd coo) ia_indices of
             Inl e \<Rightarrow> Inl e
           | Inr cols \<Rightarrow>
               (case take_indices (fst coo) ia_indices of
                  Inl e \<Rightarrow> Inl e
                | Inr rows \<Rightarrow>
                    (case add_edge_list (graph_er st) [cols, rows] of
                       Inl e \<Rightarrow> Inl e
                     | Inr g \<Rightarrow>
                         let g1 = remove_self_loops g;
                             g2 = (if \<not> multigraph then remove_parallel_edges g1 else g1)
                         in Inr (st\<lparr>graph_er := g2, num_current_edges := num_edges g2,
                                    num_test := num_test st + 1, cursor := pos\<rparr>)))))"

lemma num_test_reciprocal_round:
  "reciprocal_round rs multigraph edges coo st = Inr st' \<Longrightarrow> num_test st' = num_test st + 1"
  by (auto simp: reciprocal_round_def Let_def split: sum.splits prod.splits)

text \<open>The second loop (line 80).\<close>

function reciprocate ::
  "(nat \<Rightarrow> nat) \<Rightarrow> bool \<Rightarrow> int \<Rightarrow> nat list \<times> nat list \<Rightarrow> er_state \<Rightarrow> error + er_state" where
  "reciprocate rs multigraph edges coo st =
     (if int (num_current_edges st) \<noteq> edges \<and> num_test st < n_MAXTESTS then
        (case reciprocal_round rs multigraph edges coo st of
           Inl e \<Rightarrow> Inl e
         | Inr st' \<Rightarrow> reciprocate rs multigraph edges coo st')
      else Inr st)"
  by pat_completeness auto
termination
  by (relation "measure (\<lambda>(rs, multigraph, edges, coo, st). n_MAXTESTS - num_test st)")
    (auto dest: num_test_reciprocal_round)

declare reciprocate.simps [simp del]

text \<open>
  \<^verbatim>\<open>erdos_renyi\<close> from line 58 on.  \<open>edges\<close> is the value of
  \<^verbatim>\<open>_compute_edges(nodes, density, edges, avg_deg)\<close>, a helper the module calls and
  does not define: its result is a parameter, and \<open>density\<close> and \<open>avg_deg\<close>, which only
  that helper reads, are left out.  The halved count \<open>edges'\<close> of an undirected graph
  (line 62) is read by the second loop only, which an undirected graph never enters.
  \<open>erdos_renyi_run\<close> is the state at the \<^verbatim>\<open>return\<close>; \<open>erdos_renyi\<close> is the
  returned graph.
\<close>

definition erdos_renyi_run ::
  "(nat \<Rightarrow> nat) \<Rightarrow> int \<Rightarrow> int \<Rightarrow> real \<Rightarrow> bool \<Rightarrow> bool \<Rightarrow> error + er_state" where
  "erdos_renyi_run rs nodes edges reciprocity directed multigraph =
     (if directed \<and> reciprocity > 0 \<and> 2 - reciprocity = 0 then Inl ZeroDivisionError
      else
        let frac_recip = (if directed \<and> reciprocity > 0
                          then reciprocity / (2 - reciprocity) else 0);
            pre_recip_edges = (if directed \<and> reciprocity > 0
                               then real_of_int edges / (1 + frac_recip)
                               else real_of_int edges);
            edges' = (if \<not> directed then edges div 2 else edges);
            st0 = \<lparr>graph_er = Graph directed, num_test = 0, num_current_edges = 0,
                    cursor = 0, warnings = []\<rparr>
        in if directed \<and> reciprocity > 0 \<and> 1 + frac_recip = 0 then Inl ZeroDivisionError
           else
             (case sample_edges rs nodes multigraph pre_recip_edges st0 of
                Inl e \<Rightarrow> Inl e
              | Inr st1 \<Rightarrow>
                  (if directed \<and> reciprocity > 0
                   then (case reciprocate rs multigraph edges'
                                 (adjacency_coo (graph_er st1)) st1 of
                           Inl e \<Rightarrow> Inl e
                         | Inr st2 \<Rightarrow> Inr (st2\<lparr>graph_er := reindex_edges (graph_er st2)\<rparr>))
                   else Inr (st1\<lparr>graph_er := reindex_edges (graph_er st1)\<rparr>))))"

definition erdos_renyi ::
  "(nat \<Rightarrow> nat) \<Rightarrow> int \<Rightarrow> int \<Rightarrow> real \<Rightarrow> bool \<Rightarrow> bool \<Rightarrow> error + graph" where
  "erdos_renyi rs nodes edges reciprocity directed multigraph =
     (case erdos_renyi_run rs nodes edges reciprocity directed multigraph of
        Inl e \<Rightarrow> Inl e
      | Inr st \<Rightarrow> Inr (graph_er st))"

text \<open>Two properties of a graph that the generators are to establish.\<close>

definition no_self_loops :: "graph \<Rightarrow> bool" where
  "no_self_loops g = list_all (\<lambda>e. fst e \<noteq> snd e) (edge_list g)"

fun pairwise_nonparallel :: "bool \<Rightarrow> edge list \<Rightarrow> bool" where
  "pairwise_nonparallel d [] = True"
| "pairwise_nonparallel d (e # es) =
     (list_all (\<lambda>e'. \<not> parallel d e e') es \<and> pairwise_nonparallel d es)"

definition no_parallel_edges :: "graph \<Rightarrow> bool" where
  "no_parallel_edges g = pairwise_nonparallel (is_directed g) (edge_list g)"

text \<open>The filtering that ends a round of either loop.\<close>

definition filtered :: "bool \<Rightarrow> graph \<Rightarrow> graph" where
  "filtered multigraph g =
     (if \<not> multigraph then remove_parallel_edges (remove_self_loops g) else remove_self_loops g)"

text \<open>What both loops of \<^verbatim>\<open>erdos_renyi\<close> keep true of their state.\<close>

definition er_inv :: "bool \<Rightarrow> er_state \<Rightarrow> bool" where
  "er_inv m st =
     (num_current_edges st = num_edges (graph_er st) \<and> no_self_loops (graph_er st)
      \<and> (m \<or> no_parallel_edges (graph_er st)))"

section \<open>Pruning isolated vertices\<close>

text \<open>
  Lines 212-214 and 294-296:
  \<^verbatim>\<open>find_vertex(g, g.degree_property_map("total"), 0)\<close> lists the vertices of total
  degree 0, in index order; \<^verbatim>\<open>g.remove_vertex(list)\<close> removes them, and the vertices
  left keep their relative order and take the contiguous indices from 0 (the edges
  follow their endpoints); \<^verbatim>\<open>reindex_edges\<close> ends the step.
\<close>

definition total_degree :: "graph \<Rightarrow> nat \<Rightarrow> nat" where
  "total_degree g v =
     length (filter (\<lambda>e. fst e = v) (edge_list g)) + length (filter (\<lambda>e. snd e = v) (edge_list g))"

definition find_vertex_degree0 :: "graph \<Rightarrow> nat list" where
  "find_vertex_degree0 g = filter (\<lambda>v. total_degree g v = 0) [0..<num_vertices g]"

text \<open>The index a vertex \<open>v\<close> takes once the vertices \<open>vs\<close> are gone: the count of
  vertices kept below it.\<close>

definition new_index :: "nat list \<Rightarrow> nat \<Rightarrow> nat" where
  "new_index vs v = length (filter (\<lambda>u. u \<notin> set vs) [0..<v])"

definition remove_vertex :: "graph \<Rightarrow> nat list \<Rightarrow> graph" where
  "remove_vertex g vs =
     g\<lparr>num_vertices := new_index vs (num_vertices g),
       edge_list := map (\<lambda>e. (new_index vs (fst e), new_index vs (snd e)))
                      (filter (\<lambda>e. fst e \<notin> set vs \<and> snd e \<notin> set vs) (edge_list g))\<rparr>"

definition prune_isolated :: "graph \<Rightarrow> graph" where
  "prune_isolated g =
     (let lstIsolatedVert = find_vertex_degree0 g
      in reindex_edges (remove_vertex g lstIsolatedVert))"

section \<open>Edge types\<close>

text \<open>
  \<^verbatim>\<open>np.random.uniform(0, 1, n)\<close>: \<open>n\<close> draws of the stream \<open>us\<close> of reals,
  reduced to the unit interval.
\<close>

definition uniform01 :: "(nat \<Rightarrow> real) \<Rightarrow> nat \<Rightarrow> nat \<Rightarrow> real list" where
  "uniform01 us pos n = map (\<lambda>i. frac (us (pos + i))) [0..<n]"

text \<open>
  Lines 220-224 and 302-306, on the draws \<open>lstTypesGen\<close>: the comparison and the
  arithmetic are elementwise over arrays of length \<open>nEdges\<close>.  The result is the pair
  of the type array and \<open>nExc\<close>.
\<close>

definition edge_types :: "real list \<Rightarrow> nat \<Rightarrow> real \<Rightarrow> int list \<times> nat" where
  "edge_types lstTypesGen nEdges rInhibFrac =
     (let lstTypeLimit = replicate nEdges rInhibFrac;
          lstIsExcitatory = map (\<lambda>(u, l). u > l) (zip lstTypesGen lstTypeLimit);
          nExc = length (filter id lstIsExcitatory)
      in (map (\<lambda>(b, one). 2 * (if b then 1 else 0) - one)
            (zip lstIsExcitatory (replicate nEdges 1)),
          nExc))"

text \<open>The same with the draw of line 220 (302), read from the stream at \<open>pos\<close>.\<close>

definition generate_types :: "(nat \<Rightarrow> real) \<Rightarrow> nat \<Rightarrow> nat \<Rightarrow> real \<Rightarrow> int list \<times> nat" where
  "generate_types us pos nEdges rInhibFrac =
     (let lstTypesGen = uniform01 us pos nEdges
      in edge_types lstTypesGen nEdges rInhibFrac)"

section \<open>The property dictionary\<close>

text \<open>
  \<^verbatim>\<open>dicProperties\<close> is a dictionary from fixed keys to values of fixed kinds; it is a
  record with one optional field for each key the generators read, \<open>None\<close> for an absent
  key.  \<open>item\<close> is the subscript \<^verbatim>\<open>dic[key]\<close>.
\<close>

record properties =
  Rho :: "real option"
  Lambda :: "real option"
  Nodes :: "int option"
  Edges :: "int option"
  Density :: "real option"
  InhibFrac :: "real option"
  Weighted :: "bool option"
  Distribution :: "string option"
  MeanExc :: "real option"
  MeanInhib :: "real option"
  VarExc :: "real option"
  VarInhib :: "real option"
  ScaleExc :: "real option"
  LocationExc :: "real option"
  ScaleInhib :: "real option"
  LocationInhib :: "real option"
  Min :: "real option"
  Max :: "real option"
  Reciprocity :: "real option"
  InDeg :: "real option"
  OutDeg :: "real option"

definition item :: "'a option \<Rightarrow> error + 'a" where
  "item v = (case v of None \<Rightarrow> Inl KeyError | Some x \<Rightarrow> Inr x)"

text \<open>Sequencing of two steps the first of which can raise.\<close>

definition and_then :: "error + 'a \<Rightarrow> ('a \<Rightarrow> error + 'b) \<Rightarrow> error + 'b" where
  "and_then r f = (case r of Inl e \<Rightarrow> Inl e | Inr x \<Rightarrow> f x)"

section \<open>Array floats\<close>

text \<open>
  The entries of a numpy float array: a finite double, read as the real it denotes, an
  infinity or not-a-number.  Only the two operations that are exact on doubles are used
  on them, the absolute value and the comparison.
\<close>

datatype npfloat = Fin real | PInf | NInf | NaN

fun np_absolute :: "npfloat \<Rightarrow> npfloat" where
  "np_absolute (Fin x) = Fin \<bar>x\<bar>"
| "np_absolute PInf = PInf"
| "np_absolute NInf = PInf"
| "np_absolute NaN = NaN"

text \<open>The comparison \<^verbatim>\<open>a <= b\<close>: false as soon as one side is NaN.\<close>

fun np_le :: "npfloat \<Rightarrow> npfloat \<Rightarrow> bool" where
  "np_le NaN b = False"
| "np_le a NaN = False"
| "np_le NInf b = True"
| "np_le a PInf = True"
| "np_le (Fin x) (Fin y) = (x \<le> y)"
| "np_le a b = False"

section \<open>Generating weights\<close>

text \<open>
  \<^verbatim>\<open>np.random.normal(loc, scale, n)\<close> and \<^verbatim>\<open>np.random.lognormal(mean, sigma, n)\<close>.
  The sampler is a parameter: \<open>zs loc scale i\<close> is its \<open>i\<close>-th draw for these
  parameters, whatever double that is.  The size is a Python integer; a negative size
  and a negative scale are refused.
\<close>

type_synonym sampler = "real \<Rightarrow> real \<Rightarrow> nat \<Rightarrow> npfloat"

definition normal :: "sampler \<Rightarrow> nat \<Rightarrow> real \<Rightarrow> real \<Rightarrow> int \<Rightarrow> error + npfloat list" where
  "normal zs pos loc scale n =
     (if scale < 0 \<or> n < 0 then Inl ValueError
      else Inr (map (\<lambda>i. zs loc scale (pos + i)) [0..<nat n]))"

definition lognormal :: "sampler \<Rightarrow> nat \<Rightarrow> real \<Rightarrow> real \<Rightarrow> int \<Rightarrow> error + npfloat list" where
  "lognormal zs pos mean sigma n =
     (if sigma < 0 \<or> n < 0 then Inl ValueError
      else Inr (map (\<lambda>i. zs mean sigma (pos + i)) [0..<nat n]))"

text \<open>
  Lines 321-329.  The graph argument is not read.  \<open>nEdges\<close> and \<open>nExc\<close> are Python
  integers: \<^verbatim>\<open>nEdges-nExc\<close> can be negative, and is then refused as a size.
\<close>

definition gaussian_weights ::
  "sampler \<Rightarrow> graph \<Rightarrow> properties \<Rightarrow> int \<Rightarrow> int \<Rightarrow> error + npfloat list" where
  "gaussian_weights zs graph dicProperties nEdges nExc =
     and_then (item (MeanExc dicProperties)) (\<lambda>rMeanExc.
     and_then (item (MeanInhib dicProperties)) (\<lambda>rMeanInhib.
     and_then (item (VarExc dicProperties)) (\<lambda>rVarExc.
     and_then (item (VarInhib dicProperties)) (\<lambda>rVarInhib.
     and_then (normal zs 0 rMeanExc rVarExc nExc) (\<lambda>lstWeightsExc.
     and_then (normal zs (nat nExc) rMeanInhib rVarInhib (nEdges - nExc)) (\<lambda>lstWeightsInhib.
     Inr (map np_absolute lstWeightsExc @ map np_absolute lstWeightsInhib)))))))"

text \<open>
  Lines 331-339.  Line 334 binds \<^verbatim>\<open>rScaleinHib\<close> and line 337 reads
  \<^verbatim>\<open>rScaleInhib\<close>, a name that is bound nowhere: line 337 raises \<^verbatim>\<open>NameError\<close>
  while it evaluates the arguments of its call, and lines 338-339 are never reached.
\<close>

definition lognormal_weights ::
  "sampler \<Rightarrow> graph \<Rightarrow> properties \<Rightarrow> int \<Rightarrow> int \<Rightarrow> error + npfloat list" where
  "lognormal_weights zs graph dicProperties nEdges nExc =
     and_then (item (ScaleExc dicProperties)) (\<lambda>rScaleExc.
     and_then (item (LocationExc dicProperties)) (\<lambda>rLocationExc.
     and_then (item (ScaleInhib dicProperties)) (\<lambda>rScaleinHib.
     and_then (item (LocationInhib dicProperties)) (\<lambda>rLocationInhib.
     and_then (lognormal zs 0 rLocationExc rScaleExc nExc) (\<lambda>lstWeightsExc.
     Inl NameError)))))"

text \<open>
  Lines 341-355.  Line 342 allocates \<^verbatim>\<open>np.zeros(nEdges)\<close>, which refuses a negative
  size; lines 343-344 read the two keys; line 345 calls \<^verbatim>\<open>betweenness\<close>, a name that
  the module neither defines nor imports: it raises \<^verbatim>\<open>NameError\<close>, whatever the graph,
  and the rescaling of lines 346-354 is never reached.
\<close>

definition betweenness_correlated_weights ::
  "graph \<Rightarrow> properties \<Rightarrow> int \<Rightarrow> int \<Rightarrow> error + npfloat list" where
  "betweenness_correlated_weights graph dicProperties nEdges nExc =
     (if nEdges < 0 then Inl ValueError
      else
        and_then (item (Min dicProperties)) (\<lambda>rMin.
        and_then (item (Max dicProperties)) (\<lambda>rMax.
        Inl NameError)))"

text \<open>Lines 357-359: \<^verbatim>\<open>np.repeat(1, nEdges)\<close>, which refuses a negative count.\<close>

definition degree_correlated_weights ::
  "graph \<Rightarrow> properties \<Rightarrow> int \<Rightarrow> int \<Rightarrow> error + npfloat list" where
  "degree_correlated_weights graph dicProperties nEdges nExc =
     (if nEdges < 0 then Inl ValueError else Inr (replicate (nat nEdges) (Fin 1)))"

text \<open>
  The table \<^verbatim>\<open>dicGenWeights\<close> (lines 362-365), applied: an unknown key raises.
\<close>

definition dicGenWeights ::
  "string \<Rightarrow> sampler \<Rightarrow> graph \<Rightarrow> properties \<Rightarrow> int \<Rightarrow> int \<Rightarrow> error + npfloat list" where
  "dicGenWeights name zs graph dicProperties nEdges nExc =
     (if name = ''Gaussian'' then gaussian_weights zs graph dicProperties nEdges nExc
      else if name = ''Lognormal'' then lognormal_weights zs graph dicProperties nEdges nExc
      else if name = ''Betweenness''
        then betweenness_correlated_weights graph dicProperties nEdges nExc
      else if name = ''Degree'' then degree_correlated_weights graph dicProperties nEdges nExc
      else Inl KeyError)"

text \<open>A weight is non-negative: NaN is not.\<close>

definition nonneg :: "npfloat \<Rightarrow> bool" where
  "nonneg w = np_le (Fin 0) w"

text \<open>The dictionary with no key, from which examples are built.\<close>

definition no_properties :: properties where
  "no_properties =
     \<lparr>Rho = None, Lambda = None, Nodes = None, Edges = None, Density = None,
      InhibFrac = None, Weighted = None, Distribution = None, MeanExc = None,
      MeanInhib = None, VarExc = None, VarInhib = None, ScaleExc = None,
      LocationExc = None, ScaleInhib = None, LocationInhib = None, Min = None,
      Max = None, Reciprocity = None, InDeg = None, OutDeg = None\<rparr>"

section \<open>Exponential distance rule\<close>

text \<open>
  Lines 242-259 of \<^verbatim>\<open>gen_edr\<close>: the node count, the edge count and the density, two of
  them read and the third derived and stored back into the dictionary.  Floats are read
  as reals.
\<close>

definition edr_sizes :: "properties \<Rightarrow> error + int \<times> int \<times> real \<times> properties" where
  "edr_sizes dicProperties =
     (case Nodes dicProperties of
        Some nNodes \<Rightarrow>
          (case Edges dicProperties of
             Some nEdges \<Rightarrow>
               if nNodes ^ 2 = 0 then Inl ZeroDivisionError
               else let rDens = real_of_int nEdges / real_of_int (nNodes ^ 2)
                    in Inr (nNodes, nEdges, rDens, dicProperties\<lparr>Density := Some rDens\<rparr>)
           | None \<Rightarrow>
               and_then (item (Density dicProperties)) (\<lambda>rDens.
               let nEdges = \<lfloor>rDens * real_of_int (nNodes ^ 2)\<rfloor>
               in Inr (nNodes, nEdges, rDens, dicProperties\<lparr>Edges := Some nEdges\<rparr>)))
      | None \<Rightarrow>
          and_then (item (Edges dicProperties)) (\<lambda>nEdges.
          and_then (item (Density dicProperties)) (\<lambda>rDens.
          if rDens = 0 then Inl ZeroDivisionError
          else if real_of_int nEdges / rDens < 0 then Inl ValueError
          else let nNodes = \<lfloor>sqrt (real_of_int nEdges / rDens)\<rfloor>
               in Inr (nNodes, nEdges, rDens, dicProperties\<lparr>Nodes := Some nNodes\<rparr>))))"

text \<open>
  \<^verbatim>\<open>geometric_graph(lstPos, 0)\<close> has one vertex for each position and is undirected;
  \<open>close_pairs\<close> are the edges it finds at radius 0, a parameter.
\<close>

definition geometric_graph :: "int \<Rightarrow> edge list \<Rightarrow> graph" where
  "geometric_graph nNodes close_pairs =
     \<lparr>is_directed = False, num_vertices = nat nNodes, edge_list = close_pairs\<rparr>"

definition set_directed :: "graph \<Rightarrow> bool \<Rightarrow> graph" where
  "set_directed g d = g\<lparr>is_directed := d\<rparr>"

text \<open>Boolean-mask indexing \<^verbatim>\<open>a[mask]\<close> and the slice \<^verbatim>\<open>a[:n]\<close>.\<close>

definition mask_select :: "'a list \<Rightarrow> bool list \<Rightarrow> 'a list" where
  "mask_select a msk = map fst (filter snd (zip a msk))"

definition slice_to :: "int \<Rightarrow> 'a list \<Rightarrow> 'a list" where
  "slice_to n a = (if 0 \<le> n then take (nat n) a else take (length a - nat (- n)) a)"

text \<open>\<^verbatim>\<open>np.transpose\<close> of the array with the two rows \<open>src\<close> and \<open>dst\<close>.\<close>

definition np_transpose :: "nat list \<times> nat list \<Rightarrow> nat list list" where
  "np_transpose a = map (\<lambda>(s, t). [s, t]) (zip (fst a) (snd a))"

record edr_state =
  graphEDR :: graph
  numTest :: nat
  nEdgesTot :: nat
  int_cursor :: nat
  real_cursor :: nat
  edr_warnings :: "warning list"

text \<open>
  One round of the loop (lines 273-293).  Two float computations enter as parameters:
  \<open>nTests_of\<close> is line 273, the batch size as a function of the deficit
  \<open>numDesiredEdges - nEdgesTot\<close> (it can raise, on a NaN), and \<open>accept s t u\<close> is the
  test of lines 276-279 for the pair \<open>(s, t)\<close> against the uniform draw \<open>u\<close>, whether
  \<open>exp (- distance / lambda) > u\<close> for the positions drawn at line 263.
\<close>

definition edr_round ::
  "(nat \<Rightarrow> nat) \<Rightarrow> (nat \<Rightarrow> real) \<Rightarrow> (int \<Rightarrow> error + int) \<Rightarrow> (nat \<Rightarrow> nat \<Rightarrow> real \<Rightarrow> bool)
     \<Rightarrow> int \<Rightarrow> int \<Rightarrow> edr_state \<Rightarrow> error + edr_state" where
  "edr_round rs us nTests_of accept nNodes numDesiredEdges st =
     and_then (nTests_of (numDesiredEdges - int (nEdgesTot st))) (\<lambda>nTests.
     and_then (randint rs (int_cursor st) nNodes nTests) (\<lambda>(lstVertSrc, pos1).
     and_then (randint rs pos1 nNodes nTests) (\<lambda>(lstVertDest, pos2).
     let lstDraws = uniform01 us (real_cursor st) (nat nTests);
         lstCreateEdge = map (\<lambda>((s, t), u). accept s t u)
                           (zip (zip lstVertSrc lstVertDest) lstDraws);
         nEdges = int (length (filter id lstCreateEdge));
         lstEdges =
           (if nEdges + int (nEdgesTot st) > numDesiredEdges
            then let nEdges' = numDesiredEdges - int (nEdgesTot st)
                 in (slice_to nEdges' (mask_select lstVertSrc lstCreateEdge),
                     slice_to nEdges' (mask_select lstVertDest lstCreateEdge))
            else (mask_select lstVertSrc lstCreateEdge,
                  mask_select lstVertDest lstCreateEdge))
     in and_then (add_edge_list (graphEDR st) (np_transpose lstEdges)) (\<lambda>g.
        let g1 = remove_self_loops g;
            g2 = remove_parallel_edges g1
        in Inr (st\<lparr>graphEDR := g2, nEdgesTot := num_edges g2, numTest := numTest st + 1,
                   int_cursor := pos2, real_cursor := real_cursor st + nat nTests\<rparr>)))))"

lemma numTest_edr_round:
  "edr_round rs us nTests_of accept nNodes numDesiredEdges st = Inr st'
     \<Longrightarrow> numTest st' = numTest st + 1"
  by (auto simp: edr_round_def and_then_def Let_def split: sum.splits prod.splits)

text \<open>The loop (line 272).\<close>

function edr_loop ::
  "(nat \<Rightarrow> nat) \<Rightarrow> (nat \<Rightarrow> real) \<Rightarrow> (int \<Rightarrow> error + int) \<Rightarrow> (nat \<Rightarrow> nat \<Rightarrow> real \<Rightarrow> bool)
     \<Rightarrow> int \<Rightarrow> int \<Rightarrow> edr_state \<Rightarrow> error + edr_state" where
  "edr_loop rs us nTests_of accept nNodes numDesiredEdges st =
     (if int (nEdgesTot st) < numDesiredEdges \<and> numTest st < n_MAXTESTS then
        (case edr_round rs us nTests_of accept nNodes numDesiredEdges st of
           Inl e \<Rightarrow> Inl e
         | Inr st' \<Rightarrow> edr_loop rs us nTests_of accept nNodes numDesiredEdges st')
      else Inr st)"
  by pat_completeness auto
termination
  by (relation "measure (\<lambda>(rs, us, nTests_of, accept, nNodes, numDesiredEdges, st).
                           n_MAXTESTS - numTest st)")
    (auto dest: numTest_edr_round)

declare edr_loop.simps [simp del]

text \<open>What a generator hands back: the graph, its edge properties, and the warnings
  issued on the way.\<close>

record generated =
  result_graph :: graph
  edge_type :: "int list"
  edge_weight :: "npfloat list option"
  signalled :: "warning list"

text \<open>
  \<^verbatim>\<open>gen_edr\<close>.  Besides the dictionary it takes the random sources (\<open>rs\<close> for the
  integer draws, \<open>us\<close> for the uniform draws, the first \<open>2 * nNodes\<close> of which are the
  positions, \<open>zs\<close> for the draws of the weights), the two float computations of the
  loop, and the edges of the geometric base.
\<close>

definition gen_edr ::
  "(nat \<Rightarrow> nat) \<Rightarrow> (nat \<Rightarrow> real) \<Rightarrow> sampler \<Rightarrow> (int \<Rightarrow> error + int)
     \<Rightarrow> (nat \<Rightarrow> nat \<Rightarrow> real \<Rightarrow> bool) \<Rightarrow> edge list
     \<Rightarrow> properties \<Rightarrow> error + generated" where
  "gen_edr rs us zs nTests_of accept close_pairs dicProperties =
     and_then (item (Rho dicProperties)) (\<lambda>rRho2D.
     and_then (item (Lambda dicProperties)) (\<lambda>rLambda.
     and_then (edr_sizes dicProperties) (\<lambda>(nNodes, nEdges, rDens, dic).
     if rRho2D = 0 then Inl ZeroDivisionError
     else if nNodes < 0 then Inl ValueError
     else
       let numDesiredEdges = py_int (rDens * real_of_int (nNodes ^ 2));
           g0 = set_directed (geometric_graph nNodes close_pairs) True;
           st0 = \<lparr>graphEDR = g0, numTest = 0, nEdgesTot = num_edges g0, int_cursor = 0,
                   real_cursor = 2 * nat nNodes, edr_warnings = []\<rparr>
       in and_then (edr_loop rs us nTests_of accept nNodes numDesiredEdges st0) (\<lambda>st.
          let g = prune_isolated (graphEDR st);
              nNodes' = num_vertices g;
              nEdges' = num_edges g
          in if nNodes' ^ 2 = 0 then Inl ZeroDivisionError
             else
               and_then (item (InhibFrac dic)) (\<lambda>rInhibFrac.
               let (types, nExc) = generate_types us (real_cursor st) nEdges' rInhibFrac
               in and_then (item (Weighted dic)) (\<lambda>weighted.
                  if weighted
                  then and_then (item (Distribution dic)) (\<lambda>name.
                       and_then (dicGenWeights name zs g dic (int nEdges') (int nExc))
                         (\<lambda>lstWeights.
                       Inr \<lparr>result_graph = g, edge_type = types,
                            edge_weight = Some lstWeights, signalled = edr_warnings st\<rparr>))
                  else Inr \<lparr>result_graph = g, edge_type = types, edge_weight = None,
                            signalled = edr_warnings st\<rparr>))))))"

section \<open>Scale-free generation\<close>

text \<open>
  numpy's global random source: the stream it draws from and how far it has read.
  \<^verbatim>\<open>np.random.seed()\<close> replaces both by fresh entropy.
\<close>

record np_random =
  stream :: "nat \<Rightarrow> nat"
  position :: nat

definition np_random_seed :: "(nat \<Rightarrow> nat) \<Rightarrow> np_random" where
  "np_random_seed entropy = \<lparr>stream = entropy, position = 0\<rparr>"

text \<open>
  \<^verbatim>\<open>random_free_scale\<close>, lines 128-135.  A call hands back the global random source as it
  leaves it, and its outcome.  Line 128 reseeds the source, from the entropy \<open>rs\<close>.
  \<open>edges\<close> is again the value of \<^verbatim>\<open>_compute_edges\<close> (line 129), halved for an
  undirected graph; line 133 builds the empty graph.  Line 135 reads
  \<^verbatim>\<open>dicProperties\<close>, which is neither a parameter nor a local of the function and is
  bound nowhere in the module: the read raises \<^verbatim>\<open>NameError\<close>, on every call, and nothing
  of lines 136-231 is ever reached.  The keyword arguments \<open>reciprocity\<close>, \<open>in_exp\<close>
  and \<open>out_exp\<close> are not read on the way.
\<close>

definition random_free_scale ::
  "(nat \<Rightarrow> nat) \<Rightarrow> int \<Rightarrow> int \<Rightarrow> real \<Rightarrow> real \<Rightarrow> real \<Rightarrow> bool \<Rightarrow> bool
     \<Rightarrow> np_random \<times> (error + generated)" where
  "random_free_scale rs nodes edges reciprocity in_exp out_exp directed multigraph =
     (let state = np_random_seed rs;
          edges' = (if \<not> directed then edges div 2 else edges);
          graphFS = Graph True
      in (state, Inl NameError))"

section \<open>Properties of the Erdos-Renyi generator\<close>

lemma set_drop_parallel_subset: "set (drop_parallel d es) \<subseteq> set es"
  by (induction d es rule: drop_parallel.induct) auto

lemma length_drop_parallel: "length (drop_parallel d es) \<le> length es"
proof (induction d es rule: drop_parallel.induct)
  case (1 d)
  then show ?case by simp
next
  case (2 d e es)
  have "length (filter (\<lambda>e'. \<not> parallel d e e') es) \<le> length es" by simp
  with 2 have "length (drop_parallel d (filter (\<lambda>e'. \<not> parallel d e e') es)) \<le> length es"
    by (rule le_trans)
  then show ?case by simp
qed

lemma pairwise_nonparallel_drop_parallel: "pairwise_nonparallel d (drop_parallel d es)"
proof (induction d es rule: drop_parallel.induct)
  case (1 d)
  then show ?case by simp
next
  case (2 d e es)
  have "set (drop_parallel d (filter (\<lambda>e'. \<not> parallel d e e') es))
          \<subseteq> set (filter (\<lambda>e'. \<not> parallel d e e') es)"
    by (rule set_drop_parallel_subset)
  then have "list_all (\<lambda>e'. \<not> parallel d e e') (drop_parallel d (filter (\<lambda>e'. \<not> parallel d e e') es))"
    by (auto simp: list_all_iff)
  with 2 show ?case by simp
qed

lemma list_all_drop_parallel: "list_all P es \<Longrightarrow> list_all P (drop_parallel d es)"
  using set_drop_parallel_subset[of d es] by (auto simp: list_all_iff)


lemma no_self_loops_round:
  "no_self_loops (remove_self_loops g)"
  by (simp add: no_self_loops_def remove_self_loops_def list_all_iff)

lemma no_self_loops_remove_parallel:
  "no_self_loops g \<Longrightarrow> no_self_loops (remove_parallel_edges g)"
  by (simp add: no_self_loops_def remove_parallel_edges_def list_all_drop_parallel)

lemma no_parallel_remove_parallel: "no_parallel_edges (remove_parallel_edges g)"
  by (simp add: no_parallel_edges_def remove_parallel_edges_def pairwise_nonparallel_drop_parallel)

lemma num_edges_remove_self_loops: "num_edges (remove_self_loops g) \<le> num_edges g"
  by (simp add: num_edges_def remove_self_loops_def)

lemma num_edges_remove_parallel: "num_edges (remove_parallel_edges g) \<le> num_edges g"
  by (simp add: num_edges_def remove_parallel_edges_def length_drop_parallel)

lemma filtered_props:
  "no_self_loops (filtered m g)" "\<not> m \<Longrightarrow> no_parallel_edges (filtered m g)"
  "num_edges (filtered m g) \<le> num_edges g"
    apply (simp_all add: filtered_def no_self_loops_round no_self_loops_remove_parallel
      no_parallel_remove_parallel num_edges_remove_self_loops)
  using num_edges_remove_parallel[of "remove_self_loops g"] num_edges_remove_self_loops[of g]
  by linarith

lemma add_edge_list_Inr:
  "add_edge_list g a = Inr g' \<Longrightarrow> num_edges g' = num_edges g + length a"
  by (auto simp: add_edge_list_def num_edges_def Let_def split: if_splits)


lemma sample_round_filtered:
  "sample_round rs nodes m pre st =
     (case randint2 rs (cursor st) nodes (py_int (pre - real (num_current_edges st))) of
        Inl e \<Rightarrow> Inl e
      | Inr (ia_edges, pos) \<Rightarrow>
          (case add_edge_list (graph_er st) ia_edges of
             Inl e \<Rightarrow> Inl e
           | Inr g \<Rightarrow> Inr (st\<lparr>graph_er := filtered m g, num_current_edges := num_edges (filtered m g),
                          num_test := num_test st + 1, cursor := pos\<rparr>)))"
  by (auto simp: sample_round_def filtered_def Let_def split: sum.splits prod.splits)

lemma py_int_bounds: "0 \<le> x \<Longrightarrow> 0 \<le> py_int x \<and> real_of_int (py_int x) \<le> x"
  by (simp add: py_int_def)

lemma py_int_neg: "x < 0 \<Longrightarrow> py_int x \<le> 0"
  by (simp add: py_int_def)

lemma sample_round_inv:
  assumes "sample_round rs nodes m pre st = Inr st'"
    and "num_current_edges st = num_edges (graph_er st)"
  shows "er_inv m st'"
    and "real (num_current_edges st) \<le> pre \<Longrightarrow> real (num_current_edges st') \<le> pre"
    and "num_current_edges st = 0 \<Longrightarrow> pre < 0 \<Longrightarrow> num_current_edges st' = 0"
    and "warnings st' = warnings st"
proof -
  let ?k = "py_int (pre - real (num_current_edges st))"
  from assms(1) obtain ia pos g where
    r: "randint2 rs (cursor st) nodes ?k = Inr (ia, pos)"
    and a: "add_edge_list (graph_er st) ia = Inr g"
    and st': "st' = st\<lparr>graph_er := filtered m g, num_current_edges := num_edges (filtered m g),
                          num_test := num_test st + 1, cursor := pos\<rparr>"
    by (auto simp: sample_round_filtered split: sum.splits prod.splits)
  from r have k0: "0 \<le> ?k" and len: "length ia = nat ?k"
    by (auto simp: randint2_def split: if_splits)
  from a have ng: "num_edges g = num_edges (graph_er st) + nat ?k"
    using add_edge_list_Inr len by simp
  show "er_inv m st'"
    using filtered_props(1,2)[of m g] by (cases m) (auto simp: er_inv_def st')
  have le: "num_edges (filtered m g) \<le> num_edges (graph_er st) + nat ?k"
    using filtered_props(3)[of m g] ng by simp
  show "warnings st' = warnings st" by (simp add: st')
  {
    assume c: "real (num_current_edges st) \<le> pre"
    then have "real_of_int ?k \<le> pre - real (num_current_edges st)"
      using py_int_bounds[of "pre - real (num_current_edges st)"] by simp
    then have "real (nat ?k) \<le> pre - real (num_current_edges st)"
      using k0 by simp
    then show "real (num_current_edges st') \<le> pre"
      using le assms(2) by (simp add: st')
  }
  {
    assume z: "num_current_edges st = 0" and n: "pre < 0"
    then have "?k \<le> 0" using py_int_neg[of "pre - real (num_current_edges st)"] by simp
    then have "nat ?k = 0" by simp
    then show "num_current_edges st' = 0"
      using le z assms(2) by (simp add: st')
  }
qed

lemma sample_edges_inv:
  assumes "sample_edges rs nodes m pre st = Inr st'"
    and "er_inv m st"
    and "real (num_current_edges st) \<le> pre \<or> (num_current_edges st = 0 \<and> pre < 0)"
  shows "er_inv m st'
       \<and> (real (num_current_edges st') \<le> pre \<or> (num_current_edges st' = 0 \<and> pre < 0))
       \<and> (num_test st' < n_MAXTESTS \<longrightarrow> real (num_current_edges st') = pre)
       \<and> warnings st' = warnings st"
  using assms
proof (induction rs nodes m pre st rule: sample_edges.induct)
  case (1 rs nodes m pre st)
  show ?case
  proof (cases "real (num_current_edges st) \<noteq> pre \<and> num_test st < n_MAXTESTS")
    case False
    with "1.prems" show ?thesis by (auto simp: sample_edges.simps[of rs nodes m pre st])
  next
    case True
    with "1.prems"(1) obtain st1 where
      r: "sample_round rs nodes m pre st = Inr st1"
      and l: "sample_edges rs nodes m pre st1 = Inr st'"
      by (auto simp: sample_edges.simps[of rs nodes m pre st] split: sum.splits)
    from "1.prems"(2) have c: "num_current_edges st = num_edges (graph_er st)"
      by (simp add: er_inv_def)
    note inv = sample_round_inv[OF r c]
    have b: "real (num_current_edges st1) \<le> pre \<or> (num_current_edges st1 = 0 \<and> pre < 0)"
      using "1.prems"(3) inv(2,3) by blast
    from "1.IH"[OF True r l inv(1) b] inv(4) show ?thesis by simp
  qed
qed

lemma sample_round_total:
  assumes "0 < nodes" and "real (num_current_edges st) \<le> pre"
  shows "\<exists>st'. sample_round rs nodes m pre st = Inr st'"
proof -
  let ?k = "py_int (pre - real (num_current_edges st))"
  have "0 \<le> ?k" using assms(2) py_int_bounds[of "pre - real (num_current_edges st)"] by simp
  with assms(1) obtain ia pos where r: "randint2 rs (cursor st) nodes ?k = Inr (ia, pos)"
    and ia: "\<forall>r \<in> set ia. length r = 2"
    by (auto simp: randint2_def)
  from ia have "\<not> list_ex (\<lambda>r. length r < 2) ia" by (auto simp: list_ex_iff)
  then obtain g where "add_edge_list (graph_er st) ia = Inr g"
    by (simp add: add_edge_list_def Let_def)
  with r show ?thesis by (simp add: sample_round_filtered)
qed

lemma sample_edges_total:
  assumes "0 < nodes" and "er_inv m st" and "real (num_current_edges st) \<le> pre"
  shows "\<exists>st'. sample_edges rs nodes m pre st = Inr st'"
  using assms
proof (induction rs nodes m pre st rule: sample_edges.induct)
  case (1 rs nodes m pre st)
  show ?case
  proof (cases "real (num_current_edges st) \<noteq> pre \<and> num_test st < n_MAXTESTS")
    case False
    then show ?thesis by (auto simp: sample_edges.simps[of rs nodes m pre st])
  next
    case True
    from sample_round_total[OF "1.prems"(1,3)] obtain st1 where
      r: "sample_round rs nodes m pre st = Inr st1" by blast
    from "1.prems"(2) have c: "num_current_edges st = num_edges (graph_er st)"
      by (simp add: er_inv_def)
    note inv = sample_round_inv[OF r c]
    from "1.IH"[OF True r "1.prems"(1) inv(1) inv(2)[OF "1.prems"(3)]]
    obtain st' where "sample_edges rs nodes m pre st1 = Inr st'" by blast
    with True r show ?thesis by (simp add: sample_edges.simps[of rs nodes m pre st])
  qed
qed

lemma reciprocal_round_inv:
  assumes "reciprocal_round rs m edges coo st = Inr st'"
    and "num_current_edges st = num_edges (graph_er st)"
    and "int (num_current_edges st) \<le> edges"
  shows "er_inv m st'" and "int (num_current_edges st') \<le> edges"
    and "warnings st' = warnings st"
proof -
  let ?k = "edges - int (num_current_edges st)"
  from assms(1) obtain ia pos cols rows g where
    r: "randint rs (cursor st) (int (num_current_edges st)) ?k = Inr (ia, pos)"
    and c: "take_indices (snd coo) ia = Inr cols"
    and a: "add_edge_list (graph_er st) [cols, rows] = Inr g"
    and st': "st' = st\<lparr>graph_er := filtered m g, num_current_edges := num_edges (filtered m g),
                          num_test := num_test st + 1, cursor := pos\<rparr>"
    by (auto simp: reciprocal_round_def filtered_def Let_def split: sum.splits prod.splits)
  from r have len: "length ia = nat ?k"
    by (auto simp: randint_def split: if_splits)
  from c have "length cols = length ia"
    by (auto simp: take_indices_def split: if_splits)
  moreover from a have "2 \<le> length cols"
    by (auto simp: add_edge_list_def split: if_splits)
  ultimately have k2: "2 \<le> ?k" using len by linarith
  from a have ng: "num_edges g = num_edges (graph_er st) + 2"
    using add_edge_list_Inr by fastforce
  show "er_inv m st'"
    using filtered_props(1,2)[of m g] by (cases m) (auto simp: er_inv_def st')
  show "warnings st' = warnings st" by (simp add: st')
  show "int (num_current_edges st') \<le> edges"
    using filtered_props(3)[of m g] ng k2 assms(2) by (simp add: st')
qed

lemma reciprocate_inv:
  assumes "reciprocate rs m edges coo st = Inr st'"
    and "er_inv m st"
    and "int (num_current_edges st) \<le> edges"
  shows "er_inv m st' \<and> int (num_current_edges st') \<le> edges
       \<and> (num_test st' < n_MAXTESTS \<longrightarrow> int (num_current_edges st') = edges)
       \<and> warnings st' = warnings st"
  using assms
proof (induction rs m edges coo st rule: reciprocate.induct)
  case (1 rs m edges coo st)
  show ?case
  proof (cases "int (num_current_edges st) \<noteq> edges \<and> num_test st < n_MAXTESTS")
    case False
    with "1.prems" show ?thesis by (auto simp: reciprocate.simps[of rs m edges coo st])
  next
    case True
    with "1.prems"(1) obtain st1 where
      r: "reciprocal_round rs m edges coo st = Inr st1"
      and l: "reciprocate rs m edges coo st1 = Inr st'"
      by (auto simp: reciprocate.simps[of rs m edges coo st] split: sum.splits)
    from "1.prems"(2) have c: "num_current_edges st = num_edges (graph_er st)"
      by (simp add: er_inv_def)
    note inv = reciprocal_round_inv[OF r c "1.prems"(3)]
    from "1.IH"[OF True r l inv(1) inv(2)] inv(3) show ?thesis by simp
  qed
qed

lemma er_inv_start:
  "er_inv m \<lparr>graph_er = Graph d, num_test = 0, num_current_edges = 0, cursor = 0, warnings = []\<rparr>"
  by (simp add: er_inv_def Graph_def num_edges_def no_self_loops_def no_parallel_edges_def)

lemma pre_recip_le:
  assumes "0 \<le> edges" and "0 < r" and "2 - r \<noteq> 0"
  shows "real_of_int edges / (1 + r / (2 - r)) \<le> real_of_int edges"
proof (cases "r < 2")
  case True
  then have "0 \<le> r / (2 - r)" using assms(2) by simp
  then have "1 \<le> 1 + r / (2 - r)" by simp
  then have "real_of_int edges / (1 + r / (2 - r)) \<le> real_of_int edges / 1"
    using assms(1) by (intro divide_left_mono) auto
  then show ?thesis by simp
next
  case False
  with assms(3) have r2: "2 < r" by simp
  then have "r / (2 - r) < -1" by (simp add: field_simps)
  then have "1 + r / (2 - r) < 0" by simp
  then have "real_of_int edges / (1 + r / (2 - r)) \<le> 0"
    using assms(1) by (simp add: divide_nonneg_neg)
  then show ?thesis using assms(1) by simp
qed

lemma erdos_renyi_run_returns:
  assumes "0 \<le> edges" and "0 < nodes" and "\<not> (directed \<and> 0 < reciprocity)"
  shows "\<exists>st. erdos_renyi_run rs nodes edges reciprocity directed multigraph = Inr st"
proof -
  let ?st0 = "\<lparr>graph_er = Graph directed, num_test = 0, num_current_edges = 0,
               cursor = 0, warnings = []\<rparr>"
  have "real (num_current_edges ?st0) \<le> real_of_int edges" using assms(1) by simp
  from sample_edges_total[where nodes = nodes and m = multigraph and rs = rs,
      OF assms(2) er_inv_start this]
  obtain st1 where "sample_edges rs nodes multigraph (real_of_int edges) ?st0 = Inr st1"
    by blast
  with assms(3) show ?thesis
    by (auto simp: erdos_renyi_run_def Let_def)
qed

lemma erdos_renyi_run_props:
  assumes "0 \<le> edges"
    and run: "erdos_renyi_run rs nodes edges reciprocity directed multigraph = Inr st"
  shows "er_inv multigraph st \<and> int (num_current_edges st) \<le> edges
      \<and> (num_test st < n_MAXTESTS \<longrightarrow> int (num_current_edges st) = edges)"
proof (cases "directed \<and> 0 < reciprocity")
  let ?st0 = "\<lparr>graph_er = Graph directed, num_test = 0, num_current_edges = 0,
               cursor = 0, warnings = []\<rparr>"
  case False
  with run obtain st1 where
    l: "sample_edges rs nodes multigraph (real_of_int edges) ?st0 = Inr st1"
    and st: "st = st1\<lparr>graph_er := reindex_edges (graph_er st1)\<rparr>"
    by (auto simp: erdos_renyi_run_def Let_def split: sum.splits)
  have "real (num_current_edges ?st0) \<le> real_of_int edges
          \<or> (num_current_edges ?st0 = 0 \<and> real_of_int edges < 0)"
    using assms(1) by simp
  from sample_edges_inv[OF l er_inv_start this]
  have "er_inv multigraph st1"
    and "real (num_current_edges st1) \<le> real_of_int edges"
    and "num_test st1 < n_MAXTESTS \<longrightarrow> real (num_current_edges st1) = real_of_int edges"
    using assms(1) by auto
  then show ?thesis
    by (auto simp: st reindex_edges_def er_inv_def)
next
  let ?st0 = "\<lparr>graph_er = Graph directed, num_test = 0, num_current_edges = 0,
               cursor = 0, warnings = []\<rparr>"
  case True
  let ?pre = "real_of_int edges / (1 + reciprocity / (2 - reciprocity))"
  from True run have r2: "2 - reciprocity \<noteq> 0"
    by (auto simp: erdos_renyi_run_def split: if_splits)
  from True run r2 obtain st1 st2 where
    l: "sample_edges rs nodes multigraph ?pre ?st0 = Inr st1"
    and p: "reciprocate rs multigraph edges (adjacency_coo (graph_er st1)) st1 = Inr st2"
    and st: "st = st2\<lparr>graph_er := reindex_edges (graph_er st2)\<rparr>"
    by (auto simp: erdos_renyi_run_def Let_def split: sum.splits if_splits)
  have le: "?pre \<le> real_of_int edges"
    using pre_recip_le[OF assms(1) _ r2] True by simp
  have "real (num_current_edges ?st0) \<le> ?pre \<or> (num_current_edges ?st0 = 0 \<and> ?pre < 0)"
    by (simp add: not_le[symmetric])
  from sample_edges_inv[OF l er_inv_start this]
  have i1: "er_inv multigraph st1"
    and i2: "real (num_current_edges st1) \<le> ?pre \<or> num_current_edges st1 = 0"
    by auto
  have i3: "int (num_current_edges st1) \<le> edges"
  proof (cases "num_current_edges st1 = 0")
    case True
    then show ?thesis using assms(1) by simp
  next
    case False
    with i2 le have "real_of_int (int (num_current_edges st1)) \<le> real_of_int edges"
      by simp
    then show ?thesis by (simp only: of_int_le_iff)
  qed
  from reciprocate_inv[OF p i1 i3] show ?thesis
    by (auto simp: st reindex_edges_def er_inv_def)
qed

text \<open>
  What holds of every graph \<^verbatim>\<open>erdos_renyi\<close> returns, for a target edge count
  \<open>edges \<ge> 0\<close>: it has no self-loop, has no parallel edges unless \<open>multigraph\<close> is set,
  and has at most \<open>edges\<close> edges; it has exactly \<open>edges\<close> edges when the loops stopped
  before \<open>n_MAXTESTS\<close> rounds.  With at least one node and no reciprocity phase (an
  undirected graph, or \<open>reciprocity \<le> 0\<close>) the call does return; with a reciprocity
  phase it need not.
\<close>

lemma erdos_renyi_returned_props:
  assumes "0 \<le> edges"
  shows "(0 < nodes \<and> \<not> (directed \<and> 0 < reciprocity) \<longrightarrow>
           (\<exists>g. erdos_renyi rs nodes edges reciprocity directed multigraph = Inr g))
       \<and> (\<forall>st. erdos_renyi_run rs nodes edges reciprocity directed multigraph = Inr st \<longrightarrow>
             erdos_renyi rs nodes edges reciprocity directed multigraph = Inr (graph_er st)
           \<and> no_self_loops (graph_er st)
           \<and> (\<not> multigraph \<longrightarrow> no_parallel_edges (graph_er st))
           \<and> int (num_edges (graph_er st)) \<le> edges
           \<and> (num_test st < n_MAXTESTS \<longrightarrow> int (num_edges (graph_er st)) = edges))"
proof (intro conjI allI impI)
  assume "0 < nodes \<and> \<not> (directed \<and> 0 < reciprocity)"
  with erdos_renyi_run_returns[OF assms, of nodes directed reciprocity rs multigraph]
  show "\<exists>g. erdos_renyi rs nodes edges reciprocity directed multigraph = Inr g"
    by (auto simp: erdos_renyi_def)
next
  fix st
  assume run: "erdos_renyi_run rs nodes edges reciprocity directed multigraph = Inr st"
  then show "erdos_renyi rs nodes edges reciprocity directed multigraph = Inr (graph_er st)"
    by (simp add: erdos_renyi_def)
  note main = erdos_renyi_run_props[OF assms run]
  then show "no_self_loops (graph_er st)"
    and "int (num_edges (graph_er st)) \<le> edges"
    by (auto simp: er_inv_def)
  { assume "\<not> multigraph" with main show "no_parallel_edges (graph_er st)"
      by (auto simp: er_inv_def) }
  { assume "num_test st < n_MAXTESTS" with main show "int (num_edges (graph_er st)) = edges"
      by (auto simp: er_inv_def) }
qed

lemma run_example:
  "erdos_renyi_run (\<lambda>i. i) 3 2 (- 1) True False =
     Inr \<lparr>graph_er = \<lparr>is_directed = True, num_vertices = 3, edge_list = [(0, 1), (2, 0)]\<rparr>,
          num_test = 1, num_current_edges = 2, cursor = 4, warnings = []\<rparr>"
  by (simp add: erdos_renyi_run_def sample_edges.simps sample_round_def randint2_def
      add_edge_list_def py_int_def Graph_def remove_self_loops_def remove_parallel_edges_def
      parallel_def num_edges_def vertices_needed_def reindex_edges_def n_MAXTESTS_def
      upt_conv_Cons)

lemma erdos_renyi_returned_props_example:
  "erdos_renyi (\<lambda>i. i) 3 2 (- 1) True False =
     Inr \<lparr>is_directed = True, num_vertices = 3, edge_list = [(0, 1), (2, 0)]\<rparr>
   \<and> no_self_loops \<lparr>is_directed = True, num_vertices = 3, edge_list = [(0, 1), (2, 0)]\<rparr>
   \<and> no_parallel_edges \<lparr>is_directed = True, num_vertices = 3, edge_list = [(0, 1), (2, 0)]\<rparr>
   \<and> num_edges \<lparr>is_directed = True, num_vertices = 3, edge_list = [(0, 1), (2, 0)]\<rparr> = 2"
proof -
  have e: "(0::int) \<le> 2" by simp
  show ?thesis
    using erdos_renyi_returned_props[OF e, where nodes = 3 and directed = True
        and reciprocity = "- 1" and rs = "\<lambda>i. i" and multigraph = False] run_example
    by (simp add: n_MAXTESTS_def)
qed


text \<open>The definitions a concrete run of the generator unfolds.\<close>

lemmas er_eval =
  sample_round_def randint2_def randint_def add_edge_list_def py_int_def Graph_def
  remove_self_loops_def remove_parallel_edges_def parallel_def num_edges_def
  vertices_needed_def reindex_edges_def upt_conv_Cons

text \<open>
  Claim C1 says that \<^verbatim>\<open>erdos_renyi\<close> returns a graph, without self-loops or parallel
  edges and with at most \<open>edges\<close> edges, for every valid node count and edge count.
  With three nodes, \<open>edges = 2\<close> and \<open>reciprocity = 1\<close> the reduced target is 1: the
  first loop samples the edge \<open>(0, 1)\<close> and stops, and the second loop hands
  \<^verbatim>\<open>add_edge_list\<close> the array \<^verbatim>\<open>[col[idx], row[idx]]\<close>, two rows of one entry each
  where rows of two entries are expected.  The array is refused: the call raises and
  returns no graph.
\<close>

theorem erdos_renyi_reciprocity_raises:
  "erdos_renyi (\<lambda>i. i) 3 2 1 True False = Inl GraphException"
  by (simp add: erdos_renyi_def erdos_renyi_run_def sample_edges.simps reciprocate.simps
      reciprocal_round_def adjacency_coo_def take_indices_def er_eval n_MAXTESTS_def)

text \<open>
  Claim C5 says the returned graph has exactly \<open>nodes\<close> vertices.  The graph starts
  with no vertex and gets vertices only as \<^verbatim>\<open>add_edge_list\<close> meets them: asked for
  three nodes and one edge, with the first draws 0 and 1, \<^verbatim>\<open>erdos_renyi\<close> returns a
  graph of two vertices.
\<close>

theorem erdos_renyi_fewer_vertices:
  "erdos_renyi (\<lambda>i. i) 3 1 (- 1) True False =
     Inr \<lparr>is_directed = True, num_vertices = 2, edge_list = [(0, 1)]\<rparr>"
  by (simp add: erdos_renyi_def erdos_renyi_run_def sample_edges.simps er_eval n_MAXTESTS_def)

text \<open>
  With two edges sampled and a target of 9/4, each further round asks for
  \<open>py_int (1/4) = 0\<close> pairs and changes nothing but the round counter.
\<close>

lemma sample_edges_stall:
  assumes "num_test st \<le> n_MAXTESTS"
    and "graph_er st = \<lparr>is_directed = True, num_vertices = 3, edge_list = [(0, 1), (2, 0)]\<rparr>"
    and "num_current_edges st = 2"
  shows "sample_edges rs 3 False (9 / 4) st = Inr (st\<lparr>num_test := n_MAXTESTS\<rparr>)"
  using assms
proof (induction "n_MAXTESTS - num_test st" arbitrary: st)
  case 0
  then have "num_test st = n_MAXTESTS" by simp
  then show ?case by (simp add: sample_edges.simps[of rs 3 False "9 / 4" st])
next
  case (Suc k)
  then have lt: "num_test st < n_MAXTESTS" by simp
  let ?st' = "st\<lparr>num_test := num_test st + 1\<rparr>"
  have r: "sample_round rs 3 False (9 / 4) st = Inr ?st'"
    using Suc.prems(2,3) by (simp add: er_eval)
  have "sample_edges rs 3 False (9 / 4) ?st' = Inr (?st'\<lparr>num_test := n_MAXTESTS\<rparr>)"
    using Suc.hyps(2) Suc.prems lt by (intro Suc.hyps(1)) auto
  then show ?case
    using lt r Suc.prems(3) by (simp add: sample_edges.simps[of rs 3 False "9 / 4" st])
qed

lemma first_loop_stalled_example:
  "sample_edges (\<lambda>i. i) 3 False (9 / 4)
     \<lparr>graph_er = Graph True, num_test = 0, num_current_edges = 0, cursor = 0, warnings = []\<rparr>
   = Inr \<lparr>graph_er = \<lparr>is_directed = True, num_vertices = 3, edge_list = [(0, 1), (2, 0)]\<rparr>,
          num_test = 10000, num_current_edges = 2, cursor = 4, warnings = []\<rparr>"
proof -
  let ?st0 = "\<lparr>graph_er = Graph True, num_test = 0, num_current_edges = 0,
               cursor = 0, warnings = []\<rparr>"
  let ?st1 = "\<lparr>graph_er = \<lparr>is_directed = True, num_vertices = 3, edge_list = [(0, 1), (2, 0)]\<rparr>,
               num_test = 1, num_current_edges = 2, cursor = 4, warnings = []\<rparr>"
  have r: "sample_round (\<lambda>i. i) 3 False (9 / 4) ?st0 = Inr ?st1"
    by (simp add: er_eval)
  have "sample_edges (\<lambda>i. i) 3 False (9 / 4) ?st1 = Inr (?st1\<lparr>num_test := n_MAXTESTS\<rparr>)"
    by (rule sample_edges_stall) (simp_all add: n_MAXTESTS_def)
  with r show ?thesis
    by (simp add: sample_edges.simps[of _ 3 False "9 / 4" ?st0] n_MAXTESTS_def)
qed

text \<open>
  Claim C2 says that, after the first phase, reversed copies of existing edges are added
  until the count reaches \<open>edges\<close>.  With three nodes, \<open>edges = 3\<close> and
  \<open>reciprocity = 1/2\<close> the reduced target is 9/4: the first loop can never meet it, runs
  to the cap on the shared round counter, and the second loop is not entered.  The
  returned graph has the two sampled edges and no reversed copy.
\<close>

theorem erdos_renyi_no_reciprocal_phase:
  "erdos_renyi_run (\<lambda>i. i) 3 3 (1 / 2) True False =
     Inr \<lparr>graph_er = \<lparr>is_directed = True, num_vertices = 3, edge_list = [(0, 1), (2, 0)]\<rparr>,
          num_test = 10000, num_current_edges = 2, cursor = 4, warnings = []\<rparr>"
proof -
  have p: "reciprocate (\<lambda>i. i) False 3 coo
             \<lparr>graph_er = \<lparr>is_directed = True, num_vertices = 3, edge_list = [(0, 1), (2, 0)]\<rparr>,
              num_test = 10000, num_current_edges = 2, cursor = 4, warnings = []\<rparr>
           = Inr \<lparr>graph_er = \<lparr>is_directed = True, num_vertices = 3,
                                edge_list = [(0, 1), (2, 0)]\<rparr>,
                  num_test = 10000, num_current_edges = 2, cursor = 4, warnings = []\<rparr>" for coo
    by (simp add: reciprocate.simps n_MAXTESTS_def)
  show ?thesis
    unfolding erdos_renyi_run_def Let_def
    using first_loop_stalled_example p by (simp add: reindex_edges_def)
qed

section \<open>Properties of the pruning step\<close>

lemma new_index_nil: "new_index [] v = v"
  by (simp add: new_index_def)

lemma new_index_nth_filter:
  "w < length (filter P [0..<n]) \<Longrightarrow> length (filter P [0..<filter P [0..<n] ! w]) = w"
proof (induction n)
  case 0
  then show ?case by simp
next
  case (Suc n)
  show ?case
  proof (cases "w < length (filter P [0..<n])")
    case True
    with Suc.IH show ?thesis by (simp add: nth_append)
  next
    case False
    with Suc.prems have "P n" and "w = length (filter P [0..<n])"
      by (auto split: if_splits)
    then show ?thesis by (simp add: nth_append)
  qed
qed

lemma isolated_not_endpoint:
  assumes "e \<in> set (edge_list g)"
  shows "fst e \<notin> set (find_vertex_degree0 g)" and "snd e \<notin> set (find_vertex_degree0 g)"
proof -
  from assms have "filter (\<lambda>e'. fst e' = fst e) (edge_list g) \<noteq> []"
    by (auto simp: filter_empty_conv)
  then have "total_degree g (fst e) \<noteq> 0" by (simp add: total_degree_def)
  then show "fst e \<notin> set (find_vertex_degree0 g)" by (simp add: find_vertex_degree0_def)
  from assms have "filter (\<lambda>e'. snd e' = snd e) (edge_list g) \<noteq> []"
    by (auto simp: filter_empty_conv)
  then have "total_degree g (snd e) \<noteq> 0" by (simp add: total_degree_def)
  then show "snd e \<notin> set (find_vertex_degree0 g)" by (simp add: find_vertex_degree0_def)
qed

lemma prune_no_isolated: "find_vertex_degree0 (prune_isolated g) = []"
proof -
  let ?R = "find_vertex_degree0 g"
  let ?P = "\<lambda>u. u \<notin> set ?R"
  let ?g' = "prune_isolated g"
  have n': "num_vertices ?g' = length (filter ?P [0..<num_vertices g])"
    by (simp add: prune_isolated_def Let_def remove_vertex_def reindex_edges_def new_index_def)
  have es': "edge_list ?g' = map (\<lambda>e. (new_index ?R (fst e), new_index ?R (snd e))) (edge_list g)"
    using isolated_not_endpoint[of _ g]
    by (simp add: prune_isolated_def Let_def remove_vertex_def reindex_edges_def filter_id_conv)
  have "total_degree ?g' w \<noteq> 0" if w: "w < num_vertices ?g'" for w
  proof -
    let ?v = "filter ?P [0..<num_vertices g] ! w"
    have v: "?v < num_vertices g" "?v \<notin> set ?R"
      using nth_mem[of w "filter ?P [0..<num_vertices g]"] w n' by simp_all
    then have "total_degree g ?v \<noteq> 0" by (simp add: find_vertex_degree0_def)
    then obtain e where e: "e \<in> set (edge_list g)" "fst e = ?v \<or> snd e = ?v"
      by (auto simp: total_degree_def filter_empty_conv)
    have "new_index ?R ?v = w"
      using new_index_nth_filter[of w ?P "num_vertices g"] w n' by (simp add: new_index_def)
    with e have "\<exists>e' \<in> set (edge_list ?g'). fst e' = w \<or> snd e' = w"
      by (auto simp: es' intro!: bexI[of _ e])
    then show ?thesis by (auto simp: total_degree_def filter_empty_conv)
  qed
  then show ?thesis by (auto simp: find_vertex_degree0_def filter_empty_conv)
qed

text \<open>
  Claim C9.  Pruning isolated vertices is idempotent: after one pruning no vertex of
  total degree 0 is left, so a second pruning removes no vertex, returns the same graph,
  and its reindexing of the vertices is the identity.
\<close>

theorem prune_isolated_idempotent:
  "find_vertex_degree0 (prune_isolated g) = []
   \<and> prune_isolated (prune_isolated g) = prune_isolated g
   \<and> (\<forall>v. new_index (find_vertex_degree0 (prune_isolated g)) v = v)"
proof -
  have "remove_vertex h [] = h" for h :: graph
    by (simp add: remove_vertex_def new_index_nil)
  then have "prune_isolated (prune_isolated g) = prune_isolated g"
    using prune_no_isolated[of g] by (simp add: prune_isolated_def[of "prune_isolated g"] Let_def reindex_edges_def)
  then show ?thesis by (simp add: prune_no_isolated new_index_nil)
qed

section \<open>Properties of the edge labelling\<close>

text \<open>
  Claim C6.  The labelling draws \<open>nEdges\<close> uniform variates; edge \<open>i\<close> gets the type
  \<open>-1\<close> exactly when its variate is at most the inhibitory fraction \<open>p\<close> and \<open>+1\<close>
  otherwise, so every entry of the type array is \<open>+1\<close> or \<open>-1\<close>; \<open>nExc\<close> counts the
  entries \<open>+1\<close>.  (That the variates are independent and uniform is a property of the
  random source, not of this code.)
\<close>

theorem generate_types_labels:
  "length (uniform01 us pos nEdges) = nEdges
   \<and> fst (generate_types us pos nEdges p) =
       map (\<lambda>u. if u \<le> p then - 1 else 1) (uniform01 us pos nEdges)
   \<and> list_all (\<lambda>t. t = 1 \<or> t = - 1) (fst (generate_types us pos nEdges p))
   \<and> snd (generate_types us pos nEdges p) =
       length (filter (\<lambda>t. t = 1) (fst (generate_types us pos nEdges p)))"
proof -
  let ?d = "uniform01 us pos nEdges"
  have len: "length ?d = nEdges" by (simp add: uniform01_def)
  have z: "zip ?d (replicate nEdges p) = map (\<lambda>u. (u, p)) ?d"
    using len by (auto intro!: nth_equalityI)
  have z1: "zip bs (replicate nEdges (1::int)) = map (\<lambda>b. (b, 1)) bs"
    if "length bs = nEdges" for bs :: "bool list"
    using that by (auto intro!: nth_equalityI)
  have t: "fst (generate_types us pos nEdges p) = map (\<lambda>u. if u \<le> p then - 1 else 1) ?d"
    using len by (simp add: generate_types_def edge_types_def Let_def z z1 not_less)
  have n: "snd (generate_types us pos nEdges p) = length (filter (\<lambda>u. p < u) ?d)"
    by (simp add: generate_types_def edge_types_def Let_def z filter_map comp_def)
  have "length (filter (\<lambda>t. t = 1) (map (\<lambda>u. if u \<le> p then - 1 else (1::int)) ?d))
          = length (filter (\<lambda>u. p < u) ?d)"
    by (simp add: filter_map comp_def not_le[symmetric] cong: filter_cong)
  with n t len show ?thesis
    by (auto simp: list_all_iff)
qed

section \<open>Properties of the weight strategies\<close>

lemmas weight_eval = item_def and_then_def no_properties_def

text \<open>
  Claim C7, as the code has it.  The betweenness-correlated strategy has no check for
  degenerate input, and the module has no error \<^verbatim>\<open>InvalidInput\<close>: whatever the graph,
  so also when all its edges have the same betweenness, the call does not fail with
  \<^verbatim>\<open>InvalidInput\<close>.
\<close>

theorem betweenness_never_invalid_input:
  "betweenness_correlated_weights graph dicProperties nEdges nExc \<noteq> Inl InvalidInput"
  by (simp add: betweenness_correlated_weights_def and_then_def item_def split: option.splits)

text \<open>
  Claim C7 as stated fails on the directed cycle over two vertices, whose two edges have
  the same betweenness by symmetry: with \<^verbatim>\<open>Min = 0\<close> and \<^verbatim>\<open>Max = 1\<close> the call fails at
  line 345, with \<^verbatim>\<open>NameError\<close> and not with \<^verbatim>\<open>InvalidInput\<close>.
\<close>

theorem betweenness_two_cycle_name_error:
  "betweenness_correlated_weights
     \<lparr>is_directed = True, num_vertices = 2, edge_list = [(0, 1), (1, 0)]\<rparr>
     (no_properties\<lparr>Min := Some 0, Max := Some 1\<rparr>) 2 1 = Inl NameError"
  by (simp add: betweenness_correlated_weights_def weight_eval)

lemma nonneg_Fin: "nonneg (Fin x) = (0 \<le> x)"
  by (simp add: nonneg_def)

lemma nonneg_absolute: "x \<noteq> NaN \<Longrightarrow> nonneg (np_absolute x)"
  by (cases x) (simp_all add: nonneg_def)

lemma normal_Inr:
  assumes "normal zs pos loc scale n = Inr ws" and "\<forall>l s i. zs l s i \<noteq> NaN"
  shows "int (length ws) = n \<and> NaN \<notin> set ws"
proof -
  have "NaN \<noteq> zs l s i" for l s i
    using assms(2) by metis
  with assms(1) show ?thesis
    by (auto simp: normal_def split: if_splits)
qed

text \<open>
  The Gaussian strategy takes the absolute value of every draw: when it returns, it
  returns one weight for each edge, and every weight is non-negative, as long as no draw
  is NaN.  It returns when the four keys are present, the two scales are not negative
  and \<open>0 \<le> nExc \<le> nEdges\<close>.
\<close>

lemma gaussian_weights_nonneg:
  assumes "gaussian_weights zs graph dic nEdges nExc = Inr ws"
    and "\<forall>loc scale i. zs loc scale i \<noteq> NaN"
  shows "list_all nonneg ws \<and> int (length ws) = nEdges"
proof -
  from assms(1) obtain we wi where
    e: "normal zs 0 (the (MeanExc dic)) (the (VarExc dic)) nExc = Inr we"
    and i: "normal zs (nat nExc) (the (MeanInhib dic)) (the (VarInhib dic)) (nEdges - nExc)
              = Inr wi"
    and ws: "ws = map np_absolute we @ map np_absolute wi"
    by (auto simp: gaussian_weights_def and_then_def item_def split: option.splits sum.splits)
  from normal_Inr[OF e assms(2)] normal_Inr[OF i assms(2)] show ?thesis
    by (auto simp: ws list_all_iff intro!: nonneg_absolute)
qed

lemma gaussian_weights_returns:
  assumes "MeanExc dic = Some me" "MeanInhib dic = Some mi"
    and "VarExc dic = Some ve" "VarInhib dic = Some vi" "0 \<le> ve" "0 \<le> vi"
    and "0 \<le> nExc" "nExc \<le> nEdges"
  shows "\<exists>ws. gaussian_weights zs graph dic nEdges nExc = Inr ws"
  using assms by (simp add: gaussian_weights_def and_then_def item_def normal_def)

text \<open>With more excitatory edges than edges, the second draw is refused.\<close>

lemma gaussian_weights_negative_size:
  assumes "MeanExc dic = Some me" "MeanInhib dic = Some mi"
    and "VarExc dic = Some ve" "VarInhib dic = Some vi" "nEdges < nExc"
  shows "gaussian_weights zs graph dic nEdges nExc = Inl ValueError"
  using assms by (simp add: gaussian_weights_def and_then_def item_def normal_def)

text \<open>The degree-correlated strategy returns the weight 1 for each edge.\<close>

lemma degree_correlated_weights_nonneg:
  assumes "degree_correlated_weights graph dic nEdges nExc = Inr ws"
  shows "list_all nonneg ws \<and> int (length ws) = nEdges"
  using assms
  by (auto simp: degree_correlated_weights_def nonneg_def list_all_iff split: if_splits)

text \<open>
  The lognormal strategy never returns: with its four keys present it gets as far as
  line 337 at best, where the unbound name is read.
\<close>

lemma lognormal_weights_never_returns:
  "lognormal_weights zs graph dic nEdges nExc \<noteq> Inr ws"
  by (auto simp: lognormal_weights_def and_then_def item_def split: option.splits sum.splits)

lemma betweenness_correlated_weights_never_returns:
  "betweenness_correlated_weights graph dic nEdges nExc \<noteq> Inr ws"
  by (auto simp: betweenness_correlated_weights_def and_then_def item_def
      split: option.splits)

text \<open>
  Claim C8 says that every strategy returns a non-negative weight for every edge of its
  graph.  On a graph of two edges, one of them excitatory, and with every key they read
  present, the lognormal strategy and the betweenness-correlated strategy return no
  weight at all: each reads an unbound name (lines 337 and 345) and raises
  \<^verbatim>\<open>NameError\<close>.
\<close>

theorem lognormal_and_betweenness_raise:
  "lognormal_weights (\<lambda>loc scale i. Fin 1)
     \<lparr>is_directed = True, num_vertices = 3, edge_list = [(0, 1), (1, 2)]\<rparr>
     (no_properties\<lparr>ScaleExc := Some 1, LocationExc := Some 0, ScaleInhib := Some 1,
                     LocationInhib := Some 0\<rparr>) 2 1 = Inl NameError
   \<and> betweenness_correlated_weights
     \<lparr>is_directed = True, num_vertices = 3, edge_list = [(0, 1), (1, 2)]\<rparr>
     (no_properties\<lparr>Min := Some 0, Max := Some 1\<rparr>) 2 1 = Inl NameError"
  by (simp add: lognormal_weights_def betweenness_correlated_weights_def lognormal_def
      weight_eval)

section \<open>Properties of the exponential-distance generator\<close>


















section \<open>Exhausting the iteration cap\<close>

lemma warnings_sample_round:
  "sample_round rs nodes m pre st = Inr st' \<Longrightarrow> warnings st' = warnings st"
  by (auto simp: sample_round_def Let_def split: sum.splits prod.splits)

lemma warnings_reciprocal_round:
  "reciprocal_round rs m edges coo st = Inr st' \<Longrightarrow> warnings st' = warnings st"
  by (auto simp: reciprocal_round_def Let_def split: sum.splits prod.splits)

lemma warnings_sample_edges:
  "sample_edges rs nodes m pre st = Inr st' \<Longrightarrow> warnings st' = warnings st"
proof (induction rs nodes m pre st rule: sample_edges.induct)
  case (1 rs nodes m pre st)
  show ?case
  proof (cases "real (num_current_edges st) \<noteq> pre \<and> num_test st < n_MAXTESTS")
    case False
    with "1.prems" show ?thesis by (auto simp: sample_edges.simps[of rs nodes m pre st])
  next
    case True
    with "1.prems" obtain st1 where
      r: "sample_round rs nodes m pre st = Inr st1"
      and l: "sample_edges rs nodes m pre st1 = Inr st'"
      by (auto simp: sample_edges.simps[of rs nodes m pre st] split: sum.splits)
    from "1.IH"[OF True r l] warnings_sample_round[OF r] show ?thesis by simp
  qed
qed

lemma warnings_reciprocate:
  "reciprocate rs m edges coo st = Inr st' \<Longrightarrow> warnings st' = warnings st"
proof (induction rs m edges coo st rule: reciprocate.induct)
  case (1 rs m edges coo st)
  show ?case
  proof (cases "int (num_current_edges st) \<noteq> edges \<and> num_test st < n_MAXTESTS")
    case False
    with "1.prems" show ?thesis by (auto simp: reciprocate.simps[of rs m edges coo st])
  next
    case True
    with "1.prems" obtain st1 where
      r: "reciprocal_round rs m edges coo st = Inr st1"
      and l: "reciprocate rs m edges coo st1 = Inr st'"
      by (auto simp: reciprocate.simps[of rs m edges coo st] split: sum.splits)
    from "1.IH"[OF True r l] warnings_reciprocal_round[OF r] show ?thesis by simp
  qed
qed

lemma warnings_erdos_renyi_run:
  assumes "erdos_renyi_run rs nodes edges r d m = Inr st"
  shows "warnings st = []"
proof (cases "d \<and> 0 < r")
  case False
  with assms obtain st1 where
    l: "sample_edges rs nodes m (real_of_int edges)
          \<lparr>graph_er = Graph d, num_test = 0, num_current_edges = 0, cursor = 0,
           warnings = []\<rparr> = Inr st1"
    and st: "st = st1\<lparr>graph_er := reindex_edges (graph_er st1)\<rparr>"
    by (auto simp: erdos_renyi_run_def Let_def split: sum.splits)
  from warnings_sample_edges[OF l] st show ?thesis by simp
next
  case True
  with assms obtain st1 st2 where
    l: "sample_edges rs nodes m (real_of_int edges / (1 + r / (2 - r)))
          \<lparr>graph_er = Graph d, num_test = 0, num_current_edges = 0, cursor = 0,
           warnings = []\<rparr> = Inr st1"
    and p: "reciprocate rs m edges (adjacency_coo (graph_er st1)) st1 = Inr st2"
    and st: "st = st2\<lparr>graph_er := reindex_edges (graph_er st2)\<rparr>"
    by (auto simp: erdos_renyi_run_def Let_def split: sum.splits if_splits)
  from warnings_sample_edges[OF l] warnings_reciprocate[OF p] st show ?thesis by simp
qed

lemma first_loop_exhausted_returns:
  assumes "d" and "0 < r" and "2 - r \<noteq> 0"
    and "sample_edges rs nodes m (real_of_int edges / (1 + r / (2 - r)))
           \<lparr>graph_er = Graph d, num_test = 0, num_current_edges = 0, cursor = 0,
            warnings = []\<rparr> = Inr st1"
    and "num_test st1 = n_MAXTESTS"
  shows "erdos_renyi_run rs nodes edges r d m = Inr st1"
proof -
  have nz: "1 + r / (2 - r) \<noteq> 0"
  proof
    assume "1 + r / (2 - r) = 0"
    then have "r / (2 - r) = - 1" by simp
    with assms(3) have "r = - (2 - r)" by (simp add: field_simps)
    then show False by simp
  qed
  have "reciprocate rs m edges coo st1 = Inr st1" for coo
    using assms(5) by (simp add: reciprocate.simps[of rs m edges coo st1])
  with assms(1-4) nz show ?thesis
    by (simp add: erdos_renyi_run_def Let_def reindex_edges_def)
qed

lemma warnings_edr_round:
  "edr_round rs us nTests_of accept nNodes D st = Inr st' \<Longrightarrow> edr_warnings st' = edr_warnings st"
  by (auto simp: edr_round_def and_then_def Let_def split: sum.splits prod.splits if_splits)

lemma warnings_edr_loop:
  "edr_loop rs us nTests_of accept nNodes D st = Inr st' \<Longrightarrow> edr_warnings st' = edr_warnings st"
proof (induction rs us nTests_of accept nNodes D st rule: edr_loop.induct)
  case (1 rs us nTests_of accept nNodes D st)
  show ?case
  proof (cases "int (nEdgesTot st) < D \<and> numTest st < n_MAXTESTS")
    case False
    with "1.prems" show ?thesis
      by (auto simp: edr_loop.simps[of rs us nTests_of accept nNodes D st])
  next
    case True
    with "1.prems" obtain st1 where
      r: "edr_round rs us nTests_of accept nNodes D st = Inr st1"
      and l: "edr_loop rs us nTests_of accept nNodes D st1 = Inr st'"
      by (auto simp: edr_loop.simps[of rs us nTests_of accept nNodes D st] split: sum.splits)
    from "1.IH"[OF True r l] warnings_edr_round[OF r] show ?thesis by simp
  qed
qed

lemma signalled_gen_edr:
  assumes "gen_edr rs us zs nTests_of accept close_pairs dic = Inr res"
  shows "signalled res = []"
proof -
  from assms obtain n D st where
    l: "edr_loop rs us nTests_of accept n D
          \<lparr>graphEDR = set_directed (geometric_graph n close_pairs) True, numTest = 0,
           nEdgesTot = num_edges (set_directed (geometric_graph n close_pairs) True),
           int_cursor = 0, real_cursor = 2 * nat n, edr_warnings = []\<rparr> = Inr st"
    and s: "signalled res = edr_warnings st"
    by (auto simp: gen_edr_def and_then_def Let_def split: sum.splits if_splits prod.splits)
  from warnings_edr_loop[OF l] s show ?thesis by simp
qed


text \<open>Three edges asked of two nodes: a directed simple graph on two nodes has at most
  two.  With the stream \<open>0, 1, 2, \<dots>\<close> every sampled pair is \<open>(0, 1)\<close>.\<close>

lemma sample_edges_two_nodes:
  assumes "num_test st \<le> n_MAXTESTS"
    and "graph_er st = \<lparr>is_directed = True, num_vertices = 2, edge_list = [(0, 1)]\<rparr>"
    and "num_current_edges st = 1" and "even (cursor st)"
  shows "sample_edges (\<lambda>i. i) 2 False 3 st =
           Inr (st\<lparr>num_test := n_MAXTESTS,
                   cursor := cursor st + 4 * (n_MAXTESTS - num_test st)\<rparr>)"
  using assms
proof (induction "n_MAXTESTS - num_test st" arbitrary: st)
  case 0
  then have "num_test st = n_MAXTESTS" by simp
  then show ?case by (simp add: sample_edges.simps[of _ 2 False 3 st])
next
  case (Suc k)
  then have lt: "num_test st < n_MAXTESTS" by simp
  let ?st' = "st\<lparr>num_test := num_test st + 1, cursor := cursor st + 4\<rparr>"
  from Suc.prems(4) have m: "cursor st mod 2 = 0" "Suc (cursor st) mod 2 = 1"
    "Suc (Suc (cursor st)) mod 2 = 0" "Suc (Suc (Suc (cursor st))) mod 2 = 1"
    by (simp_all add: even_iff_mod_2_eq_zero mod_Suc)
  have r: "sample_round (\<lambda>i. i) 2 False 3 st = Inr ?st'"
    using Suc.prems(2,3) m by (simp add: er_eval)
  have "sample_edges (\<lambda>i. i) 2 False 3 ?st' =
          Inr (?st'\<lparr>num_test := n_MAXTESTS,
                    cursor := cursor ?st' + 4 * (n_MAXTESTS - num_test ?st')\<rparr>)"
    using Suc.hyps(2) Suc.prems lt by (intro Suc.hyps(1)) auto
  moreover have "cursor st + 4 + 4 * (n_MAXTESTS - (num_test st + 1))
                   = cursor st + 4 * (n_MAXTESTS - num_test st)"
    using lt by simp
  ultimately show ?case
    using lt r Suc.prems(3) by (simp add: sample_edges.simps[of _ 2 False 3 st])
qed

lemma er_exhausted_example:
  "erdos_renyi_run (\<lambda>i. i) 2 3 (- 1) True False =
     Inr \<lparr>graph_er = \<lparr>is_directed = True, num_vertices = 2, edge_list = [(0, 1)]\<rparr>,
          num_test = 10000, num_current_edges = 1, cursor = 40002, warnings = []\<rparr>"
proof -
  let ?st0 = "\<lparr>graph_er = Graph True, num_test = 0, num_current_edges = 0,
               cursor = 0, warnings = []\<rparr>"
  let ?st1 = "\<lparr>graph_er = \<lparr>is_directed = True, num_vertices = 2, edge_list = [(0, 1)]\<rparr>,
               num_test = 1, num_current_edges = 1, cursor = 6, warnings = []\<rparr>"
  have r: "sample_round (\<lambda>i. i) 2 False 3 ?st0 = Inr ?st1"
    by (simp add: er_eval)
  have "sample_edges (\<lambda>i. i) 2 False 3 ?st1 =
          Inr (?st1\<lparr>num_test := n_MAXTESTS,
                    cursor := cursor ?st1 + 4 * (n_MAXTESTS - num_test ?st1)\<rparr>)"
    by (rule sample_edges_two_nodes) (simp_all add: n_MAXTESTS_def)
  with r have "sample_edges (\<lambda>i. i) 2 False 3 ?st0 =
     Inr \<lparr>graph_er = \<lparr>is_directed = True, num_vertices = 2, edge_list = [(0, 1)]\<rparr>,
          num_test = 10000, num_current_edges = 1, cursor = 40002, warnings = []\<rparr>"
    by (simp add: sample_edges.simps[of _ 2 False 3 ?st0] n_MAXTESTS_def)
  then show ?thesis
    by (simp add: erdos_renyi_run_def reindex_edges_def)
qed

text \<open>Two nodes joined by the edge of the geometric base; every sampled pair is the
  self-loop at node 0, so the second edge the density asks for never comes.\<close>

lemma edr_loop_stalled:
  assumes "numTest st \<le> n_MAXTESTS"
    and "graphEDR st = \<lparr>is_directed = True, num_vertices = 2, edge_list = [(0, 1)]\<rparr>"
    and "nEdgesTot st = 1"
  shows "edr_loop (\<lambda>i. 0) us (\<lambda>k. Inr 1) (\<lambda>s t u. True) 2 2 st =
           Inr (st\<lparr>numTest := n_MAXTESTS,
                   int_cursor := int_cursor st + 2 * (n_MAXTESTS - numTest st),
                   real_cursor := real_cursor st + (n_MAXTESTS - numTest st)\<rparr>)"
  using assms
proof (induction "n_MAXTESTS - numTest st" arbitrary: st)
  case 0
  then have "numTest st = n_MAXTESTS" by simp
  then show ?case
    by (simp add: edr_loop.simps[of _ us _ _ 2 2 st])
next
  case (Suc k)
  then have lt: "numTest st < n_MAXTESTS" by simp
  let ?st' = "st\<lparr>numTest := numTest st + 1, int_cursor := int_cursor st + 2,
                 real_cursor := real_cursor st + 1\<rparr>"
  have r: "edr_round (\<lambda>i. 0) us (\<lambda>k. Inr 1) (\<lambda>s t u. True) 2 2 st = Inr ?st'"
    using Suc.prems(2,3)
    by (simp add: edr_round_def and_then_def randint_def add_edge_list_def np_transpose_def
        mask_select_def slice_to_def uniform01_def remove_self_loops_def
        remove_parallel_edges_def parallel_def num_edges_def vertices_needed_def)
  have "edr_loop (\<lambda>i. 0) us (\<lambda>k. Inr 1) (\<lambda>s t u. True) 2 2 ?st' =
          Inr (?st'\<lparr>numTest := n_MAXTESTS,
                   int_cursor := int_cursor ?st' + 2 * (n_MAXTESTS - numTest ?st'),
                   real_cursor := real_cursor ?st' + (n_MAXTESTS - numTest ?st')\<rparr>)"
    using Suc.hyps(2) Suc.prems lt by (intro Suc.hyps(1)) auto
  moreover have "int_cursor st + 2 + 2 * (n_MAXTESTS - (numTest st + 1))
                   = int_cursor st + 2 * (n_MAXTESTS - numTest st)"
    and "real_cursor st + 1 + (n_MAXTESTS - (numTest st + 1))
                   = real_cursor st + (n_MAXTESTS - numTest st)"
    using lt by simp_all
  ultimately show ?case
    using lt r Suc.prems(3) by (simp add: edr_loop.simps[of _ us _ _ 2 2 st])
qed

lemma edr_loop_exhausted_example:
  "edr_loop (\<lambda>i. 0) (\<lambda>i. 0) (\<lambda>k. Inr 1) (\<lambda>s t u. True) 2 2
     \<lparr>graphEDR = \<lparr>is_directed = True, num_vertices = 2, edge_list = [(0, 1)]\<rparr>, numTest = 0,
      nEdgesTot = 1, int_cursor = 0, real_cursor = 4, edr_warnings = []\<rparr>
   = Inr \<lparr>graphEDR = \<lparr>is_directed = True, num_vertices = 2, edge_list = [(0, 1)]\<rparr>,
          numTest = 10000, nEdgesTot = 1, int_cursor = 20000, real_cursor = 10004,
          edr_warnings = []\<rparr>"
  using edr_loop_stalled[where us = "\<lambda>i. 0" and st =
      "\<lparr>graphEDR = \<lparr>is_directed = True, num_vertices = 2, edge_list = [(0, 1)]\<rparr>,
        numTest = 0, nEdgesTot = 1, int_cursor = 0, real_cursor = 4, edr_warnings = []\<rparr>"]
  by (simp add: n_MAXTESTS_def)

lemma gen_edr_exhausted_example:
  "gen_edr (\<lambda>i. 0) (\<lambda>i. 0) (\<lambda>loc scale i. Fin 0) (\<lambda>k. Inr 1) (\<lambda>s t u. True) [(0, 1)]
     (no_properties\<lparr>Rho := Some 1, Lambda := Some 1, Nodes := Some 2, Density := Some (1 / 2),
        InhibFrac := Some (1 / 5), Weighted := Some False\<rparr>)
   = Inr \<lparr>result_graph = \<lparr>is_directed = True, num_vertices = 2, edge_list = [(0, 1)]\<rparr>,
          edge_type = [- 1], edge_weight = None, signalled = []\<rparr>"
  using edr_loop_exhausted_example
  by (simp add: gen_edr_def edr_sizes_def and_then_def item_def no_properties_def py_int_def
      geometric_graph_def set_directed_def num_edges_def prune_isolated_def
      find_vertex_degree0_def total_degree_def remove_vertex_def new_index_def reindex_edges_def
      edge_types_def generate_types_def uniform01_def upt_conv_Cons)


text \<open>
  Claim C3, as the code has it.  Neither generator has a warning to signal: whatever
  \<^verbatim>\<open>erdos_renyi\<close> and \<^verbatim>\<open>gen_edr\<close> return, no warning was issued, and the sampling
  loop of \<^verbatim>\<open>gen_edr\<close> issues none.  When \<^verbatim>\<open>erdos_renyi\<close> ends with its round counter
  at the cap it returns the graph built so far, of at most \<open>edges\<close> edges; it does return
  whenever there is a node and no reciprocity phase, and also when its first loop already
  used up the cap in a call with reciprocity.
\<close>

theorem cap_exhaustion_silent:
  "(erdos_renyi_run rs nodes edges r d m = Inr st \<longrightarrow> warnings st = [])
   \<and> (0 \<le> edges \<and> erdos_renyi_run rs nodes edges r d m = Inr st
        \<and> num_test st = n_MAXTESTS \<longrightarrow>
        erdos_renyi rs nodes edges r d m = Inr (graph_er st)
        \<and> int (num_edges (graph_er st)) \<le> edges)
   \<and> (0 \<le> edges \<and> 0 < nodes \<and> \<not> (d \<and> 0 < r) \<longrightarrow>
        (\<exists>st'. erdos_renyi_run rs nodes edges r d m = Inr st'))
   \<and> (0 < r' \<and> 2 - r' \<noteq> 0
        \<and> sample_edges rs' nodes' m' (real_of_int edges' / (1 + r' / (2 - r')))
             \<lparr>graph_er = Graph True, num_test = 0, num_current_edges = 0, cursor = 0,
              warnings = []\<rparr> = Inr st1
        \<and> num_test st1 = n_MAXTESTS \<longrightarrow>
        erdos_renyi_run rs' nodes' edges' r' True m' = Inr st1)
   \<and> (edr_loop rs us nTests_of accept nNodes D st0 = Inr st2 \<longrightarrow>
        edr_warnings st2 = edr_warnings st0)
   \<and> (gen_edr rs us zs nTests_of accept close_pairs dic = Inr res \<longrightarrow>
        signalled res = [])"
proof (intro conjI impI)
  assume "erdos_renyi_run rs nodes edges r d m = Inr st"
  then show "warnings st = []" by (rule warnings_erdos_renyi_run)
next
  assume h: "0 \<le> edges \<and> erdos_renyi_run rs nodes edges r d m = Inr st
        \<and> num_test st = n_MAXTESTS"
  then show "erdos_renyi rs nodes edges r d m = Inr (graph_er st)"
    by (simp add: erdos_renyi_def)
  from h erdos_renyi_run_props[of edges rs nodes r d m st]
  show "int (num_edges (graph_er st)) \<le> edges"
    by (simp add: er_inv_def)
next
  assume "0 \<le> edges \<and> 0 < nodes \<and> \<not> (d \<and> 0 < r)"
  then show "\<exists>st'. erdos_renyi_run rs nodes edges r d m = Inr st'"
    using erdos_renyi_run_returns[of edges nodes d r rs m] by blast
next
  assume "0 < r' \<and> 2 - r' \<noteq> 0
        \<and> sample_edges rs' nodes' m' (real_of_int edges' / (1 + r' / (2 - r')))
             \<lparr>graph_er = Graph True, num_test = 0, num_current_edges = 0, cursor = 0,
              warnings = []\<rparr> = Inr st1
        \<and> num_test st1 = n_MAXTESTS"
  then show "erdos_renyi_run rs' nodes' edges' r' True m' = Inr st1"
    using first_loop_exhausted_returns[of True r' rs' nodes' m' edges' st1] by simp
next
  assume "edr_loop rs us nTests_of accept nNodes D st0 = Inr st2"
  then show "edr_warnings st2 = edr_warnings st0" by (rule warnings_edr_loop)
next
  assume "gen_edr rs us zs nTests_of accept close_pairs dic = Inr res"
  then show "signalled res = []" by (rule signalled_gen_edr)
qed

theorem cap_exhaustion_silent_witness:
  "erdos_renyi (\<lambda>i. i) 2 3 (- 1) True False
     = Inr \<lparr>is_directed = True, num_vertices = 2, edge_list = [(0, 1)]\<rparr>
   \<and> int (num_edges \<lparr>is_directed = True, num_vertices = 2, edge_list = [(0, 1)]\<rparr>) \<le> 3
   \<and> erdos_renyi_run (\<lambda>i. i) 3 3 (1 / 2) True False
     = Inr \<lparr>graph_er = \<lparr>is_directed = True, num_vertices = 3, edge_list = [(0, 1), (2, 0)]\<rparr>,
            num_test = 10000, num_current_edges = 2, cursor = 4, warnings = []\<rparr>
   \<and> signalled \<lparr>result_graph = \<lparr>is_directed = True, num_vertices = 2, edge_list = [(0, 1)]\<rparr>,
          edge_type = [- 1], edge_weight = None, signalled = []\<rparr> = []"
  using cap_exhaustion_silent[where rs = "\<lambda>i. i" and nodes = 2 and edges = 3 and r = "- 1"
      and d = True and m = False
      and st = "\<lparr>graph_er = \<lparr>is_directed = True, num_vertices = 2, edge_list = [(0, 1)]\<rparr>,
          num_test = 10000, num_current_edges = 1, cursor = 40002, warnings = []\<rparr>"
      and rs' = "\<lambda>i. i" and nodes' = 3 and edges' = 3 and r' = "1 / 2" and m' = False
      and ?st1.0 = "\<lparr>graph_er = \<lparr>is_directed = True, num_vertices = 3,
                                   edge_list = [(0, 1), (2, 0)]\<rparr>,
          num_test = 10000, num_current_edges = 2, cursor = 4, warnings = []\<rparr>"
      and us = "\<lambda>i. 0" and zs = "\<lambda>loc scale i. Fin 0" and nTests_of = "\<lambda>k. Inr 1"
      and accept = "\<lambda>s t u. True" and nNodes = 2 and D = 2
      and ?st0.0 = "\<lparr>graphEDR = \<lparr>is_directed = True, num_vertices = 2, edge_list = [(0, 1)]\<rparr>,
          numTest = 0, nEdgesTot = 1, int_cursor = 0, real_cursor = 4, edr_warnings = []\<rparr>"
      and ?st2.0 = "\<lparr>graphEDR = \<lparr>is_directed = True, num_vertices = 2, edge_list = [(0, 1)]\<rparr>,
          numTest = 10000, nEdgesTot = 1, int_cursor = 20000, real_cursor = 10004,
          edr_warnings = []\<rparr>"
      and close_pairs = "[(0, 1)]"
      and dic = "no_properties\<lparr>Rho := Some 1, Lambda := Some 1, Nodes := Some 2,
        Density := Some (1 / 2), InhibFrac := Some (1 / 5), Weighted := Some False\<rparr>"
      and res = "\<lparr>result_graph = \<lparr>is_directed = True, num_vertices = 2,
                                     edge_list = [(0, 1)]\<rparr>,
          edge_type = [- 1], edge_weight = None, signalled = []\<rparr>"]
    er_exhausted_example first_loop_stalled_example edr_loop_exhausted_example
    gen_edr_exhausted_example
  by (simp add: n_MAXTESTS_def num_edges_def)

text \<open>
  Claim C3 as stated fails: asked for three edges on two nodes (density 0.75), with
  the random stream \<open>0, 1, 2, \<dots>\<close>, \<^verbatim>\<open>erdos_renyi\<close> runs its 10,000 rounds, stays at
  one edge, and returns that graph with no warning issued.
\<close>

theorem erdos_renyi_exhausted_no_warning:
  "erdos_renyi_run (\<lambda>i. i) 2 3 (- 1) True False =
     Inr \<lparr>graph_er = \<lparr>is_directed = True, num_vertices = 2, edge_list = [(0, 1)]\<rparr>,
          num_test = n_MAXTESTS, num_current_edges = 1, cursor = 40002, warnings = []\<rparr>
   \<and> int (num_edges \<lparr>is_directed = True, num_vertices = 2, edge_list = [(0, 1)]\<rparr>) \<noteq> 3
   \<and> ConvergenceWarning \<notin> set (warnings
         \<lparr>graph_er = \<lparr>is_directed = True, num_vertices = 2, edge_list = [(0, 1)]\<rparr>,
          num_test = n_MAXTESTS, num_current_edges = 1, cursor = 40002, warnings = []\<rparr>)"
  using er_exhausted_example by (simp add: n_MAXTESTS_def num_edges_def)

section \<open>Properties of the scale-free generator\<close>

text \<open>
  Claim C4, as the code has it.  \<^verbatim>\<open>random_free_scale\<close> validates neither exponent nor
  the node count, and the module has no error \<^verbatim>\<open>InvalidParameter\<close>: whatever the
  exponents and the node count, the call does not fail with \<^verbatim>\<open>InvalidParameter\<close>.
  Its first statement reseeds the global random source, so every call, failing or not,
  leaves that source changed.
\<close>

theorem random_free_scale_no_validation:
  "snd (random_free_scale rs nodes edges reciprocity in_exp out_exp directed multigraph)
     \<noteq> Inl InvalidParameter
   \<and> fst (random_free_scale rs nodes edges reciprocity in_exp out_exp directed multigraph)
     = np_random_seed rs"
  by (simp add: random_free_scale_def)

text \<open>
  Claim C4 as stated fails: with in-degree exponent 3/2, below 2, the call fails with
  \<^verbatim>\<open>NameError\<close>, not with \<^verbatim>\<open>InvalidParameter\<close>, and only after the random source has
  been reseeded.
\<close>

theorem random_free_scale_small_exponent_name_error:
  "random_free_scale (\<lambda>i. i) 100 1000 0 (3 / 2) 3 True False
     = (np_random_seed (\<lambda>i. i), Inl NameError)"
  by (simp add: random_free_scale_def)

end
